theory Spec2Isabelle
  imports Main "HOL-Library.Multiset"
begin

unbundle bit_operations_syntax

section \<open>Chart version selection (internal/helm/helm.go)\<close>

text \<open>
  The package resolves the version of a Helm chart: \<open>SelectChartVersion\<close> classifies the
  repository URL, fetches the raw version strings (from the index document of a classic
  HTTP/S repository or from the tag listing of an OCI registry) and hands them to
  \<open>getLatestVersion\<close>, which parses, sorts and filters them.

  The Go functions return a pair \<open>(value, error)\<close>; the model returns the pair
  \<open>(value, error option)\<close>, \<open>None\<close> being Go's nil error. A run-time panic is an
  outcome of its own.
\<close>

subsection \<open>Errors (github.com/pkg/errors)\<close>

text \<open>
  A message is a format string with its operands in place: \<open>Lit\<close> is literal text of the
  format, \<open>Q s\<close> the directive \<open>%q\<close> applied to the string \<open>s\<close>, \<open>D n\<close> the directive
  \<open>%d\<close> applied to the integer \<open>n\<close>.
\<close>

datatype piece = Lit string | Q string | D int

text \<open>
  \<open>Errorf m\<close> is the error made by \<open>errors.Errorf\<close>, \<open>Wrapped cause m\<close> the one made by
  \<open>errors.Wrapf\<close> around a non-nil cause, and \<open>Foreign text\<close> an error made by an imported
  package (net/http, yaml, oras, semver), known by its text only.
\<close>

datatype error = Errorf "piece list" | Wrapped error "piece list" | Foreign string

text \<open>\<open>errors.Wrapf\<close> returns nil when the error it is given is nil.\<close>

definition Wrapf :: "error option \<Rightarrow> piece list \<Rightarrow> error option" where
  "Wrapf err m = (case err of None \<Rightarrow> None | Some e \<Rightarrow> Some (Wrapped e m))"

subsection \<open>Outcomes\<close>

datatype panic = IndexOutOfRange int nat

datatype 'a outcome = Returns 'a | Panics panic

subsection \<open>The imported packages\<close>

text \<open>
  What the code sends and receives. A \<open>request\<close> is the \<open>*http.Request\<close> as far as the
  code sets it: method, URL and the credentials of \<open>SetBasicAuth\<close>. A \<open>response\<close> has the
  status code and what \<open>io.ReadAll\<close> gives for its body. An \<open>index\<close> is the anonymous
  struct the index document is unmarshalled into; a nil map and an empty map are the
  same for the lookup the code does. A \<open>Reference\<close> is \<open>registry.Reference\<close>.
\<close>

record Credentials =
  Username :: string
  Password :: string

record request =
  Method :: string
  URL :: string
  BasicAuth :: "(string \<times> string) option"

record response =
  StatusCode :: int
  Body :: "error + string"

record entry =
  Version :: string

record index =
  Entries :: "string \<rightharpoonup> entry list"

record Reference =
  Registry :: string
  Repository :: string
  Reference :: string

record auth_Credential =
  auth_Username :: string
  auth_Password :: string

text \<open>
  The packages the code calls are not part of the repository; the functions of the model
  take them as a record of functions. \<open>'v\<close> is the type \<open>*semver.Version\<close>, \<open>'c\<close> the
  type \<open>*semver.Constraints\<close>. \<open>sort_Sort less xs\<close> is the slice \<open>xs\<close> after
  \<open>sort.Sort\<close> has run on it with \<open>less\<close> as the \<open>Less\<close> of its interface.
  \<open>remote_Tags ref cred\<close> is a run of \<open>(*remote.Repository).Tags\<close> on the repository
  \<open>ref\<close> whose client answers every credential request with \<open>cred\<close>: the pages of tags
  it hands to its callback, in order, and the error it returns.
\<close>

record ('v, 'c) env =
  semver_NewVersion :: "string \<Rightarrow> error + 'v"
  semver_LessThan :: "'v \<Rightarrow> 'v \<Rightarrow> bool"
  semver_String :: "'v \<Rightarrow> string"
  semver_NewConstraint :: "string \<Rightarrow> error + 'c"
  semver_Check :: "'c \<Rightarrow> 'v \<Rightarrow> bool"
  sort_Sort :: "('v \<Rightarrow> 'v \<Rightarrow> bool) \<Rightarrow> 'v list \<Rightarrow> 'v list"
  http_NewRequest :: "string \<Rightarrow> string \<Rightarrow> error + request"
  http_Do :: "request \<Rightarrow> error + response"
  yaml_Unmarshal :: "string \<Rightarrow> error + index"
  registry_ParseReference :: "string \<Rightarrow> error + Reference"
  remote_Tags :: "Reference \<Rightarrow> auth_Credential \<Rightarrow> string list list \<times> error option"

text \<open>The network operations a call performs, in order.\<close>

datatype event = HTTPDo request | OCITags Reference auth_Credential

subsection \<open>Strings (package strings)\<close>

definition HasPrefix :: "string \<Rightarrow> string \<Rightarrow> bool" where
  "HasPrefix s p = (take (length p) s = p)"

definition HasSuffix :: "string \<Rightarrow> string \<Rightarrow> bool" where
  "HasSuffix s p = (length p \<le> length s \<and> drop (length s - length p) s = p)"

definition TrimPrefix :: "string \<Rightarrow> string \<Rightarrow> string" where
  "TrimPrefix s p = (if HasPrefix s p then drop (length p) s else s)"

definition TrimSuffix :: "string \<Rightarrow> string \<Rightarrow> string" where
  "TrimSuffix s p = (if HasSuffix s p then take (length s - length p) s else s)"

subsection \<open>getLatestVersion\<close>

text \<open>
  The first loop of \<open>getLatestVersion\<close>: every raw string is parsed in order; the first
  one that does not parse ends the loop, and is returned with the parser's error.
\<close>

fun parse_versions :: "('v, 'c) env \<Rightarrow> string list \<Rightarrow> (string \<times> error) + 'v list" where
  "parse_versions E [] = Inr []"
| "parse_versions E (version # rest) =
     (case semver_NewVersion E version of
        Inl err \<Rightarrow> Inl (version, err)
      | Inr sv \<Rightarrow>
          (case parse_versions E rest of
             Inl bad \<Rightarrow> Inl bad
           | Inr svs \<Rightarrow> Inr (sv # svs)))"

text \<open>
  The second loop, \<open>for i := len(semvers) - 1; i >= 0; i--\<close>: the argument \<open>n\<close> is
  \<open>i + 1\<close>, so that \<open>n = 0\<close> is the exit of the loop.
\<close>

fun check_down :: "('v, 'c) env \<Rightarrow> 'c \<Rightarrow> 'v list \<Rightarrow> nat \<Rightarrow> string \<times> error option" where
  "check_down E constraint semvers 0 = ('''', None)"
| "check_down E constraint semvers (Suc i) =
     (if semver_Check E constraint (semvers ! i)
      then (semver_String E (semvers ! i), None)
      else check_down E constraint semvers i)"

text \<open>
  With an empty constraint the code reads \<open>semvers[len(semvers)-1]\<close> with no check of the
  length: on an empty slice the index is \<open>-1\<close> and the Go run time panics.
\<close>

definition getLatestVersion ::
  "('v, 'c) env \<Rightarrow> string list \<Rightarrow> string \<Rightarrow> (string \<times> error option) outcome" where
  "getLatestVersion E versions constraintStr =
     (case parse_versions E versions of
        Inl (version, err) \<Rightarrow>
          Returns ('''', Wrapf (Some err) [Lit ''error parsing version '', Q version])
      | Inr parsed \<Rightarrow>
          (let semvers = sort_Sort E (semver_LessThan E) parsed in
           if constraintStr = ''''
           then (if length semvers = 0
                 then Panics (IndexOutOfRange (- 1) 0)
                 else Returns (semver_String E (semvers ! (length semvers - 1)), None))
           else (case semver_NewConstraint E constraintStr of
                   Inl err \<Rightarrow>
                     Returns ('''', Wrapf (Some err) [Lit ''error parsing constraint '', Q constraintStr])
                 | Inr constraint \<Rightarrow>
                     Returns (check_down E constraint semvers (length semvers)))))"

text \<open>
  What \<open>sort.Sort\<close> promises for a slice, as a property of one call: the result is a
  rearrangement of the slice in ascending order, that is, no element is less than an
  element before it. The order of elements that compare equal is not part of the
  promise.
\<close>

definition sorts :: "(('a \<Rightarrow> 'a \<Rightarrow> bool) \<Rightarrow> 'a list \<Rightarrow> 'a list) \<Rightarrow> ('a \<Rightarrow> 'a \<Rightarrow> bool) \<Rightarrow> 'a list \<Rightarrow> bool" where
  "sorts srt lt xs = (mset (srt lt xs) = mset xs \<and> sorted_wrt (\<lambda>a b. \<not> lt b a) (srt lt xs))"

subsection \<open>The fetchers\<close>

definition SetBasicAuth :: "request \<Rightarrow> string \<Rightarrow> string \<Rightarrow> request" where
  "SetBasicAuth req username password = req\<lparr>BasicAuth := Some (username, password)\<rparr>"

definition index_URL :: "string \<Rightarrow> string" where
  "index_URL repoURL = TrimSuffix repoURL ''/'' @ ''/index.yaml''"

text \<open>
  \<open>getChartVersionsFromClassicRepo\<close>, with the requests it sends. A nil slice is the
  empty list. \<open>with_credentials\<close> is the conditional call of \<open>SetBasicAuth\<close>.
\<close>

definition with_credentials :: "Credentials option \<Rightarrow> request \<Rightarrow> request" where
  "with_credentials creds req =
     (case creds of
        None \<Rightarrow> req
      | Some c \<Rightarrow> SetBasicAuth req (Username c) (Password c))"

definition getChartVersionsFromClassicRepo ::
  "('v, 'c) env \<Rightarrow> string \<Rightarrow> string \<Rightarrow> Credentials option \<Rightarrow> (string list \<times> error option) \<times> event list" where
  "getChartVersionsFromClassicRepo E repoURL chart creds =
     (let indexURL = index_URL repoURL in
      case http_NewRequest E ''GET'' indexURL of
        Inl err \<Rightarrow>
          (([], Wrapf (Some err) [Lit ''error preparing HTTP/S request to '', Q indexURL]), [])
      | Inr req0 \<Rightarrow>
          (let req = with_credentials creds req0 in
           case http_Do E req of
             Inl err \<Rightarrow>
               (([], Wrapf (Some err) [Lit ''error querying repository index at '', Q indexURL]),
                [HTTPDo req])
           | Inr res \<Rightarrow>
               if StatusCode res \<noteq> 200
               then (([], Some (Errorf [Lit ''received unexpected HTTP '', D (StatusCode res),
                                        Lit '' when querying repository index at '', Q indexURL])),
                     [HTTPDo req])
               else (case Body res of
                       Inl err \<Rightarrow>
                         (([], Wrapf (Some err) [Lit ''error reading repository index from '', Q indexURL]),
                          [HTTPDo req])
                     | Inr resBodyBytes \<Rightarrow>
                         (case yaml_Unmarshal E resBodyBytes of
                            Inl err \<Rightarrow>
                              (([], Wrapf (Some err)
                                      [Lit ''error unmarshaling repository index from '', Q indexURL]),
                               [HTTPDo req])
                          | Inr index \<Rightarrow>
                              (case Entries index chart of
                                 None \<Rightarrow>
                                   (([], Some (Errorf [Lit ''no versions of chart '', Q chart,
                                                       Lit '' found in repository index from '',
                                                       Q indexURL])),
                                    [HTTPDo req])
                               | Some entries \<Rightarrow>
                                   ((map Version entries, None), [HTTPDo req]))))))"

text \<open>
  \<open>getChartVersionsFromOCIRepo\<close>. The callback given to \<open>Tags\<close> appends every page to
  \<open>versions\<close>; the function returns \<open>versions\<close> with the wrapped error of \<open>Tags\<close>
  (nil when \<open>Tags\<close> returns nil). The credential function of the client returns the
  caller's credentials, or the empty credential when there are none.
\<close>

definition oci_Credential :: "Credentials option \<Rightarrow> auth_Credential" where
  "oci_Credential creds =
     (case creds of
        Some c \<Rightarrow> \<lparr>auth_Username = Username c, auth_Password = Password c\<rparr>
      | None \<Rightarrow> \<lparr>auth_Username = '''', auth_Password = ''''\<rparr>)"

definition getChartVersionsFromOCIRepo ::
  "('v, 'c) env \<Rightarrow> string \<Rightarrow> Credentials option \<Rightarrow> (string list \<times> error option) \<times> event list" where
  "getChartVersionsFromOCIRepo E repoURL creds =
     (case registry_ParseReference E (TrimPrefix repoURL ''oci://'') of
        Inl err \<Rightarrow> (([], Wrapf (Some err) [Lit ''error parsing repository URL '', Q repoURL]), [])
      | Inr ref \<Rightarrow>
          (case remote_Tags E ref (oci_Credential creds) of
             (pages, err) \<Rightarrow>
               ((concat pages,
                 Wrapf err [Lit ''error retrieving versions of chart from repository '', Q repoURL]),
                [OCITags ref (oci_Credential creds)])))"

subsection \<open>SelectChartVersion\<close>

text \<open>
  Lines 55 to 69 of \<open>SelectChartVersion\<close>: what the function does with the result of the
  fetcher it chose.
\<close>

definition select_fetched ::
  "('v, 'c) env \<Rightarrow> string \<Rightarrow> string \<Rightarrow> string \<Rightarrow> (string list \<times> error option) \<times> event list \<Rightarrow>
   (string \<times> error option) outcome \<times> event list" where
  "select_fetched E repoURL chart semverConstraint fetched =
     (case fetched of
        ((versions, err), sent) \<Rightarrow>
          (case err of
             Some e \<Rightarrow>
               (Returns ('''', Wrapf (Some e) [Lit ''error retrieving versions of chart '', Q chart,
                                              Lit '' from repository '', Q repoURL]),
                sent)
           | None \<Rightarrow>
               (case getLatestVersion E versions semverConstraint of
                  Panics p \<Rightarrow> (Panics p, sent)
                | Returns (latestVersion, err') \<Rightarrow>
                    (Returns (latestVersion,
                              Wrapf err' [Lit ''error determining latest version of chart '', Q chart,
                                          Lit '' from repository '', Q repoURL]),
                     sent))))"

definition SelectChartVersion ::
  "('v, 'c) env \<Rightarrow> string \<Rightarrow> string \<Rightarrow> string \<Rightarrow> Credentials option \<Rightarrow>
   (string \<times> error option) outcome \<times> event list" where
  "SelectChartVersion E repoURL chart semverConstraint creds =
     (if HasPrefix repoURL ''http://'' \<or> HasPrefix repoURL ''https://''
      then select_fetched E repoURL chart semverConstraint
             (getChartVersionsFromClassicRepo E repoURL chart creds)
      else if HasPrefix repoURL ''oci://''
      then select_fetched E repoURL chart semverConstraint
             (getChartVersionsFromOCIRepo E repoURL creds)
      else (Returns ('''', Some (Errorf [Lit ''repository URL '', Q repoURL, Lit '' is invalid''])), []))"

subsection \<open>Rendering an error\<close>

text \<open>
  The text of an error, as its \<open>Error()\<close> method gives it: the message of a wrapped
  error, a colon and a space, and the text of its cause. \<open>quote\<close> is what the directive
  \<open>%q\<close> prints for a string (\<open>strconv.Quote\<close>).
\<close>

function decimal :: "int \<Rightarrow> string" where
  "decimal n =
     (if n < 10 then [''0123456789'' ! nat n]
      else decimal (n div 10) @ [''0123456789'' ! nat (n mod 10)])"
  by pat_completeness auto
termination
  by (relation "measure nat") auto

declare decimal.simps [simp del]

definition decimal_int :: "int \<Rightarrow> string" where
  "decimal_int i = (if i < 0 then CHR ''-'' # decimal (- i) else decimal i)"

fun Sprint :: "(string \<Rightarrow> string) \<Rightarrow> piece \<Rightarrow> string" where
  "Sprint quote (Lit s) = s"
| "Sprint quote (Q s) = quote s"
| "Sprint quote (D n) = decimal_int n"

definition Sprintf :: "(string \<Rightarrow> string) \<Rightarrow> piece list \<Rightarrow> string" where
  "Sprintf quote m = concat (map (Sprint quote) m)"

fun Error :: "(string \<Rightarrow> string) \<Rightarrow> error \<Rightarrow> string" where
  "Error quote (Errorf m) = Sprintf quote m"
| "Error quote (Wrapped cause m) = Sprintf quote m @ '': '' @ Error quote cause"
| "Error quote (Foreign text) = text"

section \<open>A semantic-version package for the worked examples\<close>

text \<open>
  Modelled from the spec: the package github.com/Masterminds/semver, which the code
  imports and the repository does not contain. The model follows sections 3 and 6 of the
  specification (versions \<open>major.minor.patch[-prerelease][+build]\<close>, their order, and the
  constraint syntax: exact pin, comparison operators, caret and tilde, comma-separated
  conjunctions, alternatives separated by \<open>||\<close>) and, where the specification is silent,
  the package's documented behaviour: a leading \<open>v\<close> and omitted minor and patch numbers
  are accepted, and a version with a prerelease does not satisfy a constraint whose
  version has none. It covers constraints whose version is written in full; wildcards,
  partial versions and hyphen ranges are outside it and are reported as improper
  constraints. The model is an argument of the theorems' examples only: the theorems
  themselves hold for every package.
\<close>

record semver_Version =
  major :: int
  minor :: int
  patch :: int
  pre :: string
  metadata :: string
  original :: string

record constraint =
  origfunc :: string
  con :: semver_Version

definition isDigit :: "char \<Rightarrow> bool" where
  "isDigit c = (c \<in> set ''0123456789'')"

definition isIdentChar :: "char \<Rightarrow> bool" where
  "isIdentChar c =
     (c \<in> set ''0123456789ABCDEFGHIJKLMNOPQRSTUVWXYZabcdefghijklmnopqrstuvwxyz-'')"

definition Atoi :: "string \<Rightarrow> int" where
  "Atoi ds = foldl (\<lambda>n c. 10 * n + (of_char c - 48)) 0 ds"

text \<open>\<open>strings.Split\<close> for a separator of one character.\<close>

fun Split :: "string \<Rightarrow> char \<Rightarrow> string list" where
  "Split [] sep = [[]]"
| "Split (c # cs) sep =
     (if c = sep then [] # Split cs sep
      else (case Split cs sep of [] \<Rightarrow> [[c]] | p # ps \<Rightarrow> (c # p) # ps))"

text \<open>
  The optional group \<open>(\.[0-9]+)?\<close> at the head of \<open>s\<close>: the text of the group and the
  rest, or \<open>None\<close> when \<open>s\<close> starts with a dot that no digit follows (then no match of the
  whole expression exists).
\<close>

definition dot_number :: "string \<Rightarrow> (string \<times> string) option" where
  "dot_number s =
     (case s of
        [] \<Rightarrow> Some ([], [])
      | c # t \<Rightarrow>
          if c = CHR ''.''
          then (if takeWhile isDigit t = [] then None
                else Some (c # takeWhile isDigit t, dropWhile isDigit t))
          else Some ([], s))"

text \<open>
  The optional groups \<open>(-(ids))?\<close> and \<open>(\+(ids))?\<close>, \<open>ids\<close> being identifiers of
  letters, digits and hyphens separated by dots: the identifiers and the rest.
\<close>

definition tagged_idents :: "char \<Rightarrow> string \<Rightarrow> (string \<times> string) option" where
  "tagged_idents tag s =
     (case s of
        [] \<Rightarrow> Some ([], [])
      | c # t \<Rightarrow>
          if c = tag
          then (let ids = takeWhile (\<lambda>x. isIdentChar x \<or> x = CHR ''.'') t in
                if [] \<in> set (Split ids CHR ''.'') then None
                else Some (ids, dropWhile (\<lambda>x. isIdentChar x \<or> x = CHR ''.'') t))
          else Some ([], s))"

text \<open>
  The anchored expression for a version: the major number, the minor and patch groups
  (with their dots), the prerelease and the build metadata.
\<close>

definition versionRegex :: "string \<Rightarrow> (string \<times> string \<times> string \<times> string \<times> string) option" where
  "versionRegex v =
     (let s = (case v of [] \<Rightarrow> [] | c # t \<Rightarrow> if c = CHR ''v'' then t else v) in
      if takeWhile isDigit s = [] then None
      else (case dot_number (dropWhile isDigit s) of
              None \<Rightarrow> None
            | Some (m2, s2) \<Rightarrow>
                (case dot_number s2 of
                   None \<Rightarrow> None
                 | Some (m3, s3) \<Rightarrow>
                     (case tagged_idents CHR ''-'' s3 of
                        None \<Rightarrow> None
                      | Some (m5, s5) \<Rightarrow>
                          (case tagged_idents CHR ''+'' s5 of
                             None \<Rightarrow> None
                           | Some (m8, s8) \<Rightarrow>
                               if s8 = [] then Some (takeWhile isDigit s, m2, m3, m5, m8)
                               else None)))))"

definition ParseInt :: "string \<Rightarrow> error + int" where
  "ParseInt ds =
     (if Atoi ds \<le> 9223372036854775807 then Inr (Atoi ds)
      else Inl (Foreign (''Error parsing version segment: strconv.ParseInt: parsing ''
                         @ [CHR 0x22] @ ds @ [CHR 0x22] @ '': value out of range'')))"

definition NewVersion :: "string \<Rightarrow> error + semver_Version" where
  "NewVersion v =
     (case versionRegex v of
        None \<Rightarrow> Inl (Foreign ''Invalid Semantic Version'')
      | Some (m1, m2, m3, m5, m8) \<Rightarrow>
          (case ParseInt m1 of
             Inl err \<Rightarrow> Inl err
           | Inr ma \<Rightarrow>
               (case (if m2 \<noteq> [] then ParseInt (drop 1 m2) else Inr 0) of
                  Inl err \<Rightarrow> Inl err
                | Inr mi \<Rightarrow>
                    (case (if m3 \<noteq> [] then ParseInt (drop 1 m3) else Inr 0) of
                       Inl err \<Rightarrow> Inl err
                     | Inr pa \<Rightarrow>
                         Inr \<lparr>major = ma, minor = mi, patch = pa, pre = m5, metadata = m8,
                              original = v\<rparr>))))"

definition String :: "semver_Version \<Rightarrow> string" where
  "String v =
     decimal_int (major v) @ ''.'' @ decimal_int (minor v) @ ''.'' @ decimal_int (patch v)
     @ (if pre v \<noteq> [] then ''-'' @ pre v else [])
     @ (if metadata v \<noteq> [] then ''+'' @ metadata v else [])"

definition compareSegment :: "int \<Rightarrow> int \<Rightarrow> int" where
  "compareSegment v o' = (if v < o' then - 1 else if v > o' then 1 else 0)"

text \<open>Go's order of strings: byte by byte.\<close>

fun string_less :: "string \<Rightarrow> string \<Rightarrow> bool" where
  "string_less s [] = False"
| "string_less [] (b # bs) = True"
| "string_less (a # as) (b # bs) =
     ((of_char a :: nat) < of_char b \<or> (a = b \<and> string_less as bs))"

definition isUint :: "string \<Rightarrow> bool" where
  "isUint s = (s \<noteq> [] \<and> list_all isDigit s \<and> Atoi s \<le> 18446744073709551615)"

definition comparePrePart :: "string \<Rightarrow> string \<Rightarrow> int" where
  "comparePrePart s o' =
     (if s = o' then 0
      else if s = [] then (if o' \<noteq> [] then - 1 else 1)
      else if o' = [] then (if s \<noteq> [] then 1 else - 1)
      else if \<not> isUint o' \<and> \<not> isUint s then (if string_less o' s then 1 else - 1)
      else if \<not> isUint o' then - 1
      else if \<not> isUint s then 1
      else if Atoi s > Atoi o' then 1 else - 1)"

text \<open>
  The loop of \<open>comparePrerelease\<close> over the identifiers of both prereleases, the shorter
  list filled up with empty strings.
\<close>

fun compareParts :: "string list \<Rightarrow> string list \<Rightarrow> int" where
  "compareParts [] [] = 0"
| "compareParts (s # ss) [] =
     (if comparePrePart s [] \<noteq> 0 then comparePrePart s [] else compareParts ss [])"
| "compareParts [] (p # ps) =
     (if comparePrePart [] p \<noteq> 0 then comparePrePart [] p else compareParts [] ps)"
| "compareParts (s # ss) (p # ps) =
     (if comparePrePart s p \<noteq> 0 then comparePrePart s p else compareParts ss ps)"

definition comparePrerelease :: "string \<Rightarrow> string \<Rightarrow> int" where
  "comparePrerelease v o' = compareParts (Split v CHR ''.'') (Split o' CHR ''.'')"

definition Compare :: "semver_Version \<Rightarrow> semver_Version \<Rightarrow> int" where
  "Compare v o' =
     (if compareSegment (major v) (major o') \<noteq> 0 then compareSegment (major v) (major o')
      else if compareSegment (minor v) (minor o') \<noteq> 0 then compareSegment (minor v) (minor o')
      else if compareSegment (patch v) (patch o') \<noteq> 0 then compareSegment (patch v) (patch o')
      else if pre v = [] \<and> pre o' = [] then 0
      else if pre v = [] then 1
      else if pre o' = [] then - 1
      else comparePrerelease (pre v) (pre o'))"

definition LessThan :: "semver_Version \<Rightarrow> semver_Version \<Rightarrow> bool" where
  "LessThan v o' = (Compare v o' < 0)"

definition isNonZero :: "semver_Version \<Rightarrow> bool" where
  "isNonZero v = (major v \<noteq> 0 \<or> minor v \<noteq> 0 \<or> patch v \<noteq> 0 \<or> pre v \<noteq> [])"

text \<open>
  The check of one constraint, by its operator. \<open>skips_pre\<close> is the rule that a version
  with a prerelease does not satisfy a constraint whose version has none.
\<close>

definition skips_pre :: "semver_Version \<Rightarrow> constraint \<Rightarrow> bool" where
  "skips_pre v c = (pre v \<noteq> [] \<and> pre (con c) = [])"

definition constraintOps :: "string list" where
  "constraintOps = ['''', ''='', ''!='', ''>'', ''<'', ''>='', ''=>'', ''<='', ''=<'', ''~'', ''~>'', ''^'']"

definition check :: "constraint \<Rightarrow> semver_Version \<Rightarrow> bool" where
  "check c v =
     (if origfunc c = '''' \<or> origfunc c = ''=''
        then \<not> skips_pre v c \<and> Compare v (con c) = 0
      else if origfunc c = ''!=''
        then Compare v (con c) \<noteq> 0
      else if origfunc c = ''>''
        then (\<not> isNonZero (con c) \<and> isNonZero v) \<or> (\<not> skips_pre v c \<and> Compare v (con c) = 1)
      else if origfunc c = ''<''
        then \<not> skips_pre v c \<and> Compare v (con c) < 0
      else if origfunc c = ''>='' \<or> origfunc c = ''=>''
        then (\<not> isNonZero (con c) \<and> isNonZero v) \<or> (\<not> skips_pre v c \<and> Compare v (con c) \<ge> 0)
      else if origfunc c = ''<='' \<or> origfunc c = ''=<''
        then \<not> skips_pre v c \<and> Compare v (con c) \<le> 0
      else if origfunc c = ''~'' \<or> origfunc c = ''~>''
        then \<not> skips_pre v c \<and> \<not> LessThan v (con c)
             \<and> ((major (con c) = 0 \<and> minor (con c) = 0 \<and> patch (con c) = 0)
                \<or> (major v = major (con c) \<and> minor v = minor (con c)))
      else \<not> skips_pre v c \<and> \<not> LessThan v (con c) \<and> major v = major (con c))"

text \<open>
  A list of alternatives, each a list of constraints that must all hold.
\<close>

definition Check :: "constraint list list \<Rightarrow> semver_Version \<Rightarrow> bool" where
  "Check cs v = list_ex (\<lambda>alt. list_all (\<lambda>c. check c v) alt) cs"

definition isSpace :: "char \<Rightarrow> bool" where
  "isSpace c = (c \<in> set [CHR '' '', CHR 0x09, CHR 0x0A, CHR 0x0C, CHR 0x0D])"

definition trim :: "string \<Rightarrow> string" where
  "trim s = rev (dropWhile isSpace (rev (dropWhile isSpace s)))"

definition improper :: "string \<Rightarrow> error" where
  "improper c = Foreign (''improper constraint: '' @ c)"

text \<open>
  One constraint: white space, an operator of the table, white space, a version written
  in full, white space.
\<close>

definition parseConstraint :: "string \<Rightarrow> error + constraint" where
  "parseConstraint c =
     (let s = trim c;
          f = takeWhile (\<lambda>x. x \<in> set ''=!<>~^'') s;
          ver = dropWhile isSpace (dropWhile (\<lambda>x. x \<in> set ''=!<>~^'') s) in
      if f \<notin> set constraintOps then Inl (improper c)
      else (case versionRegex ver of
              None \<Rightarrow> Inl (improper c)
            | Some (m1, m2, m3, m5, m8) \<Rightarrow>
                if m2 = [] \<or> m3 = [] then Inl (improper c)
                else (case NewVersion ver of
                        Inl err \<Rightarrow> Inl (Foreign ''constraint Parser Error'')
                      | Inr v \<Rightarrow> Inr \<lparr>origfunc = f, con = v\<rparr>)))"

fun parse_all :: "string list \<Rightarrow> error + constraint list" where
  "parse_all [] = Inr []"
| "parse_all (s # ss) =
     (case parseConstraint s of
        Inl err \<Rightarrow> Inl err
      | Inr pc \<Rightarrow> (case parse_all ss of Inl err \<Rightarrow> Inl err | Inr pcs \<Rightarrow> Inr (pc # pcs)))"

fun parse_alternatives :: "string list \<Rightarrow> error + constraint list list" where
  "parse_alternatives [] = Inr []"
| "parse_alternatives (v # vs) =
     (case parse_all (Split v CHR '','') of
        Inl err \<Rightarrow> Inl err
      | Inr alt \<Rightarrow>
          (case parse_alternatives vs of Inl err \<Rightarrow> Inl err | Inr alts \<Rightarrow> Inr (alt # alts)))"

text \<open>\<open>strings.Split(c, "||")\<close>: \<open>acc\<close> is the piece read so far, reversed.\<close>

fun Split_bars :: "string \<Rightarrow> string \<Rightarrow> string list" where
  "Split_bars acc [] = [rev acc]"
| "Split_bars acc [c] = [rev (c # acc)]"
| "Split_bars acc (c # d # cs) =
     (if c = CHR ''|'' \<and> d = CHR ''|'' then rev acc # Split_bars [] cs
      else Split_bars (c # acc) (d # cs))"

definition NewConstraint :: "string \<Rightarrow> error + constraint list list" where
  "NewConstraint c = parse_alternatives (Split_bars [] c)"

section \<open>Package sort\<close>

text \<open>
  \<open>sort.Sort\<close> of the Go standard library, which the repository calls and does not
  contain, as the library implements it from Go 1.19 on: a pattern-defeating quicksort on
  the interface \<open>Len\<close>, \<open>Less\<close>, \<open>Swap\<close>. The slice is a list; \<open>Less lt data i j\<close> and
  \<open>Swap data i j\<close> are the two methods of \<open>semver.Collection\<close>, \<open>lt\<close> being the
  \<open>LessThan\<close> of the versions. Indices are natural numbers: the functions below are
  applied inside the bounds of the slice only, as the library's are. The generator of
  pseudo-random numbers that \<open>breakPatterns\<close> draws from (a xorshift on 64 bits) is the
  argument \<open>rnd\<close>; what is proved does not depend on it.
\<close>

definition Less :: "('a \<Rightarrow> 'a \<Rightarrow> bool) \<Rightarrow> 'a list \<Rightarrow> nat \<Rightarrow> nat \<Rightarrow> bool" where
  "Less lt data i j = lt (data ! i) (data ! j)"

definition Swap :: "'a list \<Rightarrow> nat \<Rightarrow> nat \<Rightarrow> 'a list" where
  "Swap data i j = (data[i := data ! j])[j := data ! i]"

text \<open>
  \<open>insertionSort(data, a, b)\<close>: \<open>insertion_inner\<close> is its inner loop
  \<open>for j := i; j > a && data.Less(j, j-1); j--\<close>.
\<close>

fun insertion_inner :: "('a \<Rightarrow> 'a \<Rightarrow> bool) \<Rightarrow> 'a list \<Rightarrow> nat \<Rightarrow> nat \<Rightarrow> 'a list" where
  "insertion_inner lt data a 0 = data"
| "insertion_inner lt data a (Suc j) =
     (if Suc j > a \<and> Less lt data (Suc j) j
      then insertion_inner lt (Swap data (Suc j) j) a j
      else data)"

definition insertionSort :: "('a \<Rightarrow> 'a \<Rightarrow> bool) \<Rightarrow> 'a list \<Rightarrow> nat \<Rightarrow> nat \<Rightarrow> 'a list" where
  "insertionSort lt data a b = foldl (\<lambda>d i. insertion_inner lt d a i) data [a + 1 ..< b]"

text \<open>\<open>siftDown(data, lo, hi, first)\<close>; the argument \<open>root\<close> starts as \<open>lo\<close>.\<close>

function siftDown :: "('a \<Rightarrow> 'a \<Rightarrow> bool) \<Rightarrow> 'a list \<Rightarrow> nat \<Rightarrow> nat \<Rightarrow> nat \<Rightarrow> 'a list" where
  "siftDown lt data root hi first =
     (if 2 * root + 1 \<ge> hi then data
      else (let child = (if 2 * root + 1 + 1 < hi
                            \<and> Less lt data (first + (2 * root + 1)) (first + (2 * root + 1) + 1)
                         then 2 * root + 1 + 1 else 2 * root + 1) in
            if \<not> Less lt data (first + root) (first + child) then data
            else siftDown lt (Swap data (first + root) (first + child)) child hi first))"
  by pat_completeness auto
termination
  by (relation "measure (\<lambda>(lt, data, root, hi, first). hi - root)") auto

declare siftDown.simps [simp del]

definition heapSort :: "('a \<Rightarrow> 'a \<Rightarrow> bool) \<Rightarrow> 'a list \<Rightarrow> nat \<Rightarrow> nat \<Rightarrow> 'a list" where
  "heapSort lt data a b =
     (let first = a; lo = 0; hi = b - a;
          heap = foldl (\<lambda>d i. siftDown lt d i hi first) data (rev [0 ..< (hi - 1) div 2 + 1])
      in foldl (\<lambda>d i. siftDown lt (Swap d first (first + i)) lo i first) heap (rev [0 ..< hi]))"

text \<open>\<open>bits.Len\<close>, and \<open>breakPatterns\<close> with its three swaps.\<close>

fun bits_Len :: "nat \<Rightarrow> nat" where
  "bits_Len n = (if n = 0 then 0 else Suc (bits_Len (n div 2)))"

declare bits_Len.simps [simp del]

definition breakPatterns :: "(int \<Rightarrow> int) \<Rightarrow> 'a list \<Rightarrow> nat \<Rightarrow> nat \<Rightarrow> 'a list" where
  "breakPatterns rnd data a b =
     (let length = b - a in
      if length \<ge> 8
      then (let modulus = 2 ^ bits_Len length;
                idx = a + (length div 4) * 2 - 1
            in fst (foldl (\<lambda>(d, random) i.
                             (let random' = rnd random;
                                  other = nat (random' AND (modulus - 1));
                                  other' = (if other \<ge> length then other - length else other)
                              in (Swap d (idx - 1 + i) (a + other'), random')))
                          (data, int length) [0 ..< 3]))
      else data)"

text \<open>The choice of the pivot: the median of three elements, or of three medians.\<close>

datatype sortedHint = unknownHint | increasingHint | decreasingHint

definition order2 :: "('a \<Rightarrow> 'a \<Rightarrow> bool) \<Rightarrow> 'a list \<Rightarrow> nat \<Rightarrow> nat \<Rightarrow> nat \<Rightarrow> nat \<times> nat \<times> nat" where
  "order2 lt data a b swaps = (if Less lt data b a then (b, a, swaps + 1) else (a, b, swaps))"

definition median :: "('a \<Rightarrow> 'a \<Rightarrow> bool) \<Rightarrow> 'a list \<Rightarrow> nat \<Rightarrow> nat \<Rightarrow> nat \<Rightarrow> nat \<Rightarrow> nat \<times> nat" where
  "median lt data a b c swaps =
     (case order2 lt data a b swaps of
        (a1, b1, s1) \<Rightarrow>
          (case order2 lt data b1 c s1 of
             (b2, c2, s2) \<Rightarrow>
               (case order2 lt data a1 b2 s2 of
                  (a3, b3, s3) \<Rightarrow> (b3, s3))))"

definition medianAdjacent :: "('a \<Rightarrow> 'a \<Rightarrow> bool) \<Rightarrow> 'a list \<Rightarrow> nat \<Rightarrow> nat \<Rightarrow> nat \<times> nat" where
  "medianAdjacent lt data a swaps = median lt data (a - 1) a (a + 1) swaps"

definition choosePivot :: "('a \<Rightarrow> 'a \<Rightarrow> bool) \<Rightarrow> 'a list \<Rightarrow> nat \<Rightarrow> nat \<Rightarrow> nat \<times> sortedHint" where
  "choosePivot lt data a b =
     (let l = b - a;
          i = a + l div 4 * 1;
          j = a + l div 4 * 2;
          k = a + l div 4 * 3
      in case (if l \<ge> 8
               then (case (if l \<ge> 50
                           then (case medianAdjacent lt data i 0 of
                                   (i', s1) \<Rightarrow>
                                     (case medianAdjacent lt data j s1 of
                                        (j', s2) \<Rightarrow>
                                          (case medianAdjacent lt data k s2 of
                                             (k', s3) \<Rightarrow> (i', j', k', s3))))
                           else (i, j, k, 0)) of
                       (i', j', k', s) \<Rightarrow> median lt data i' j' k' s)
               else (j, 0)) of
           (pivot, swaps) \<Rightarrow>
             if swaps = 0 then (pivot, increasingHint)
             else if swaps = 4 * 3 then (pivot, decreasingHint)
             else (pivot, unknownHint))"

function reverse_loop :: "'a list \<Rightarrow> nat \<Rightarrow> nat \<Rightarrow> 'a list" where
  "reverse_loop data i j = (if i < j then reverse_loop (Swap data i j) (i + 1) (j - 1) else data)"
  by pat_completeness auto
termination
  by (relation "measure (\<lambda>(data, i, j). j - i)") auto

declare reverse_loop.simps [simp del]

definition reverseRange :: "'a list \<Rightarrow> nat \<Rightarrow> nat \<Rightarrow> 'a list" where
  "reverseRange data a b = reverse_loop data a (b - 1)"

text \<open>
  \<open>partialInsertionSort(data, a, b)\<close>. \<open>advance\<close> is the loop
  \<open>for i < b && !data.Less(i, i-1)\<close>, \<open>shift_left\<close> the loop
  \<open>for j := i - 1; j >= 1; j--\<close> and \<open>shift_right\<close> the loop
  \<open>for j := i + 1; j < b; j++\<close>; \<open>partial_steps\<close> is the outer loop, its last argument
  the number of steps left of the five.
\<close>

function advance :: "('a \<Rightarrow> 'a \<Rightarrow> bool) \<Rightarrow> 'a list \<Rightarrow> nat \<Rightarrow> nat \<Rightarrow> nat" where
  "advance lt data i b = (if i < b \<and> \<not> Less lt data i (i - 1) then advance lt data (i + 1) b else i)"
  by pat_completeness auto
termination
  by (relation "measure (\<lambda>(lt, data, i, b). b - i)") auto

declare advance.simps [simp del]

fun shift_left :: "('a \<Rightarrow> 'a \<Rightarrow> bool) \<Rightarrow> 'a list \<Rightarrow> nat \<Rightarrow> 'a list" where
  "shift_left lt data 0 = data"
| "shift_left lt data (Suc j) =
     (if \<not> Less lt data (Suc j) j then data else shift_left lt (Swap data (Suc j) j) j)"

function shift_right :: "('a \<Rightarrow> 'a \<Rightarrow> bool) \<Rightarrow> 'a list \<Rightarrow> nat \<Rightarrow> nat \<Rightarrow> 'a list" where
  "shift_right lt data j b =
     (if j < b
      then (if \<not> Less lt data j (j - 1) then data
            else shift_right lt (Swap data j (j - 1)) (j + 1) b)
      else data)"
  by pat_completeness auto
termination
  by (relation "measure (\<lambda>(lt, data, j, b). b - j)") auto

declare shift_right.simps [simp del]

fun partial_steps ::
  "('a \<Rightarrow> 'a \<Rightarrow> bool) \<Rightarrow> 'a list \<Rightarrow> nat \<Rightarrow> nat \<Rightarrow> nat \<Rightarrow> nat \<Rightarrow> 'a list \<times> bool" where
  "partial_steps lt data a b i 0 = (data, False)"
| "partial_steps lt data a b i (Suc n) =
     (let i' = advance lt data i b in
      if i' = b then (data, True)
      else if b - a < 50 then (data, False)
      else (let d1 = Swap data i' (i' - 1);
                d2 = (if i' - a \<ge> 2 then shift_left lt d1 (i' - 1) else d1);
                d3 = (if b - i' \<ge> 2 then shift_right lt d2 (i' + 1) b else d2)
            in partial_steps lt d3 a b i' n))"

definition partialInsertionSort ::
  "('a \<Rightarrow> 'a \<Rightarrow> bool) \<Rightarrow> 'a list \<Rightarrow> nat \<Rightarrow> nat \<Rightarrow> 'a list \<times> bool" where
  "partialInsertionSort lt data a b = partial_steps lt data a b (a + 1) 5"

text \<open>
  The two scans of a partition: \<open>scan_up p i j\<close> is the loop \<open>for i <= j && p(i) { i++ }\<close>
  and \<open>scan_down p i j\<close> the loop \<open>for i <= j && p(j) { j-- }\<close>. The library scans with
  \<open>i\<close> greater than the start of the range, so \<open>j\<close> does not go below \<open>0\<close>.
\<close>

function scan_up :: "(nat \<Rightarrow> bool) \<Rightarrow> nat \<Rightarrow> nat \<Rightarrow> nat" where
  "scan_up p i j = (if i \<le> j \<and> p i then scan_up p (i + 1) j else i)"
  by pat_completeness auto
termination
  by (relation "measure (\<lambda>(p, i, j). Suc j - i)") auto

declare scan_up.simps [simp del]

fun scan_down :: "(nat \<Rightarrow> bool) \<Rightarrow> nat \<Rightarrow> nat \<Rightarrow> nat" where
  "scan_down p i 0 = 0"
| "scan_down p i (Suc j) = (if i \<le> Suc j \<and> p (Suc j) then scan_down p i j else Suc j)"

text \<open>
  \<open>partitionEqual\<close> and \<open>partition\<close>, each with the loop \<open>for { ... }\<close> of its body. A
  loop that does not end has no result (\<open>None\<close>).
\<close>

partial_function (option) partitionEqual_loop ::
  "('a \<Rightarrow> 'a \<Rightarrow> bool) \<Rightarrow> nat \<Rightarrow> 'a list \<Rightarrow> nat \<Rightarrow> nat \<Rightarrow> ('a list \<times> nat) option" where
  "partitionEqual_loop lt a data i j =
     (let i' = scan_up (\<lambda>k. \<not> Less lt data a k) i j;
          j' = scan_down (\<lambda>k. Less lt data a k) i' j
      in if i' > j' then Some (data, i')
         else partitionEqual_loop lt a (Swap data i' j') (i' + 1) (j' - 1))"

definition partitionEqual ::
  "('a \<Rightarrow> 'a \<Rightarrow> bool) \<Rightarrow> 'a list \<Rightarrow> nat \<Rightarrow> nat \<Rightarrow> nat \<Rightarrow> ('a list \<times> nat) option" where
  "partitionEqual lt data a b pivot = partitionEqual_loop lt a (Swap data a pivot) (a + 1) (b - 1)"

partial_function (option) partition_loop ::
  "('a \<Rightarrow> 'a \<Rightarrow> bool) \<Rightarrow> nat \<Rightarrow> 'a list \<Rightarrow> nat \<Rightarrow> nat \<Rightarrow> ('a list \<times> nat) option" where
  "partition_loop lt a data i j =
     (let i' = scan_up (\<lambda>k. Less lt data k a) i j;
          j' = scan_down (\<lambda>k. \<not> Less lt data k a) i' j
      in if i' > j' then Some (data, j')
         else partition_loop lt a (Swap data i' j') (i' + 1) (j' - 1))"

definition partition' ::
  "('a \<Rightarrow> 'a \<Rightarrow> bool) \<Rightarrow> 'a list \<Rightarrow> nat \<Rightarrow> nat \<Rightarrow> nat \<Rightarrow> ('a list \<times> nat \<times> bool) option" where
  "partition' lt data a b pivot =
     (let d = Swap data a pivot;
          i = scan_up (\<lambda>k. Less lt d k a) (a + 1) (b - 1);
          j = scan_down (\<lambda>k. \<not> Less lt d k a) i (b - 1)
      in if i > j then Some (Swap d j a, j, True)
         else (case partition_loop lt a (Swap d i j) (i + 1) (j - 1) of
                 None \<Rightarrow> None
               | Some (d', j') \<Rightarrow> Some (Swap d' j' a, j', False)))"

text \<open>
  \<open>pdqsort(data, a, b, limit)\<close>. One call of the model is one round of the library's
  loop \<open>for { ... }\<close>. The bounds \<open>a\<close> and \<open>b\<close> are the pair \<open>span\<close>, and the two
  variables of the loop, \<open>wasBalanced\<close> and \<open>wasPartitioned\<close>, are the pair \<open>was\<close>, both
  \<open>True\<close> where the library calls itself. \<open>round_start\<close> is the round up to the
  partition: it gives the slice, the pivot, the limit, and whether
  \<open>partialInsertionSort\<close> has sorted the slice.
\<close>

definition round_start ::
  "(int \<Rightarrow> int) \<Rightarrow> ('a \<Rightarrow> 'a \<Rightarrow> bool) \<Rightarrow> 'a list \<Rightarrow> nat \<Rightarrow> nat \<Rightarrow> nat \<Rightarrow> bool \<Rightarrow> bool \<Rightarrow>
   'a list \<times> nat \<times> nat \<times> bool" where
  "round_start rnd lt data a b limit wasBalanced wasPartitioned =
     (let d1 = (if \<not> wasBalanced then breakPatterns rnd data a b else data);
          limit' = (if \<not> wasBalanced then limit - 1 else limit);
          chosen = choosePivot lt d1 a b;
          d2 = (if snd chosen = decreasingHint then reverseRange d1 a b else d1);
          pivot = (if snd chosen = decreasingHint then (b - 1) - (fst chosen - a) else fst chosen);
          hint = (if snd chosen = decreasingHint then increasingHint else snd chosen);
          tried = (if wasBalanced \<and> wasPartitioned \<and> hint = increasingHint
                   then partialInsertionSort lt d2 a b else (d2, False))
      in (fst tried, pivot, limit', snd tried))"

partial_function (option) pdqsort ::
  "(int \<Rightarrow> int) \<Rightarrow> ('a \<Rightarrow> 'a \<Rightarrow> bool) \<Rightarrow> 'a list \<Rightarrow> nat \<times> nat \<Rightarrow> nat \<Rightarrow> bool \<times> bool \<Rightarrow> 'a list option" where
  "pdqsort rnd lt data span limit was =
     (let a = fst span; b = snd span in
      if b - a \<le> 12 then Some (insertionSort lt data a b)
      else if limit = 0 then Some (heapSort lt data a b)
      else (case round_start rnd lt data a b limit (fst was) (snd was) of
              (d3, pivot, limit', finished) \<Rightarrow>
                if finished then Some d3
                else if a > 0 \<and> \<not> Less lt d3 (a - 1) pivot
                then Option.bind (partitionEqual lt d3 a b pivot)
                       (\<lambda>(d4, mid). pdqsort rnd lt d4 (mid, b) limit' was)
                else Option.bind (partition' lt d3 a b pivot)
                       (\<lambda>(d4, mid, alreadyPartitioned).
                          if mid - a < b - mid
                          then Option.bind (pdqsort rnd lt d4 (a, mid) limit' (True, True))
                                 (\<lambda>d5. pdqsort rnd lt d5 (mid + 1, b) limit'
                                          (mid - a \<ge> (b - a) div 8, alreadyPartitioned))
                          else Option.bind (pdqsort rnd lt d4 (mid + 1, b) limit' (True, True))
                                 (\<lambda>d5. pdqsort rnd lt d5 (a, mid) limit'
                                          (b - mid \<ge> (b - a) div 8, alreadyPartitioned)))))"

declare partitionEqual_loop.simps [code] partition_loop.simps [code] pdqsort.simps [code]

definition Sort :: "(int \<Rightarrow> int) \<Rightarrow> ('a \<Rightarrow> 'a \<Rightarrow> bool) \<Rightarrow> 'a list \<Rightarrow> 'a list option" where
  "Sort rnd lt data =
     (let n = length data in
      if n \<le> 1 then Some data else pdqsort rnd lt data (0, n) (bits_Len n) (True, True))"

text \<open>
  The slice after \<open>sort.Sort\<close>. The sort always returns (lemma \<open>Sort_returns\<close> below), so
  the second case does not occur.
\<close>

definition go_Sort :: "(int \<Rightarrow> int) \<Rightarrow> ('a \<Rightarrow> 'a \<Rightarrow> bool) \<Rightarrow> 'a list \<Rightarrow> 'a list" where
  "go_Sort rnd lt data = (case Sort rnd lt data of Some result \<Rightarrow> result | None \<Rightarrow> data)"

text \<open>
  A generator for the examples, the xorshift on 64 bits with the shifts 13, 7 and 17. The
  examples are too short for \<open>breakPatterns\<close> to be reached.
\<close>

definition xorshift_Next :: "int \<Rightarrow> int" where
  "xorshift_Next r =
     (let r1 = take_bit 64 (r XOR push_bit 13 r);
          r2 = r1 XOR drop_bit 7 r1
      in take_bit 64 (r2 XOR push_bit 17 r2))"

text \<open>
  Insertion sort as a function on lists, for the proofs: \<open>sift lt x front\<close> puts \<open>x\<close> into
  the sorted front part, given in reverse, and \<open>inserted lt xs\<close> is the sorted list.
  Two elements tie when neither is less than the other.
\<close>

fun sift :: "('a \<Rightarrow> 'a \<Rightarrow> bool) \<Rightarrow> 'a \<Rightarrow> 'a list \<Rightarrow> 'a list" where
  "sift lt x [] = [x]"
| "sift lt x (y # ys) = (if lt x y then y # sift lt x ys else x # y # ys)"

definition inserted :: "('a \<Rightarrow> 'a \<Rightarrow> bool) \<Rightarrow> 'a list \<Rightarrow> 'a list" where
  "inserted lt xs = rev (foldl (\<lambda>front x. sift lt x front) [] xs)"

definition ties :: "('a \<Rightarrow> 'a \<Rightarrow> bool) \<Rightarrow> 'a \<Rightarrow> 'a \<Rightarrow> bool" where
  "ties lt x y = (\<not> lt x y \<and> \<not> lt y x)"


section \<open>An environment for the examples\<close>

text \<open>
  The semantic-version package and the sort above, and a classic repository at
  \<open>https://charts.example.com\<close> that answers every request for its index with status 200
  and an index listing the chart \<open>nginx\<close> in three versions; every other request fails.
  The registry has one repository, with its tags on two pages.
\<close>

definition example_index :: index where
  "example_index =
     \<lparr>Entries = [''nginx'' \<mapsto> [\<lparr>Version = ''1.0.0''\<rparr>, \<lparr>Version = ''1.2.0''\<rparr>,
                               \<lparr>Version = ''2.0.0-beta''\<rparr>]]\<rparr>"

definition example_env :: "(semver_Version, constraint list list) env" where
  "example_env =
     \<lparr>semver_NewVersion = NewVersion,
      semver_LessThan = LessThan,
      semver_String = String,
      semver_NewConstraint = NewConstraint,
      semver_Check = Check,
      sort_Sort = go_Sort xorshift_Next,
      http_NewRequest = (\<lambda>method url. Inr \<lparr>Method = method, URL = url, BasicAuth = None\<rparr>),
      http_Do = (\<lambda>req. if URL req = ''https://charts.example.com/index.yaml''
                         then Inr \<lparr>StatusCode = 200, Body = Inr ''entries: ...''\<rparr>
                         else Inl (Foreign ''no such host'')),
      yaml_Unmarshal = (\<lambda>body. Inr example_index),
      registry_ParseReference =
        (\<lambda>s. Inr \<lparr>Registry = ''registry.example.com'', Repository = ''charts/nginx'',
                   Reference = ''''\<rparr>),
      remote_Tags = (\<lambda>ref cred. ([[''1.0.0'', ''1.2.0''], [''2.0.0-beta'']], None))\<rparr>"


text \<open>The raw version list of the worked examples, and its versions as parsed.\<close>

definition example_versions :: "string list" where
  "example_versions = [''1.0.0'', ''1.2.0'', ''2.0.0-beta'']"

definition example_parsed :: "semver_Version list" where
  "example_parsed =
     [\<lparr>major = 1, minor = 0, patch = 0, pre = [], metadata = [], original = ''1.0.0''\<rparr>,
      \<lparr>major = 1, minor = 2, patch = 0, pre = [], metadata = [], original = ''1.2.0''\<rparr>,
      \<lparr>major = 2, minor = 0, patch = 0, pre = ''beta'', metadata = [], original = ''2.0.0-beta''\<rparr>]"

text \<open>
  A second repository at the same address: its index lists a chart under the empty name,
  and the chart \<open>redis\<close> with its versions out of order and one of them twice.
\<close>

definition example_env2 :: "(semver_Version, constraint list list) env" where
  "example_env2 =
     example_env\<lparr>yaml_Unmarshal :=
       (\<lambda>body. Inr \<lparr>Entries = ['''' \<mapsto> [\<lparr>Version = ''1.0.0''\<rparr>],
                                  ''redis'' \<mapsto> [\<lparr>Version = ''2.0.0''\<rparr>, \<lparr>Version = ''1.0.0''\<rparr>,
                                                  \<lparr>Version = ''2.0.0''\<rparr>]]\<rparr>)\<rparr>"

text \<open>
  Thirteen raw versions, the first two equal up to their build metadata, and a short list
  with the same two versions.
\<close>

definition tie_versions :: "string list" where
  "tie_versions =
     [''12.0.0+a'', ''12.0.0+b'', ''1.0.0'', ''2.0.0'', ''3.0.0'', ''4.0.0'', ''5.0.0'',
      ''6.0.0'', ''7.0.0'', ''8.0.0'', ''9.0.0'', ''10.0.0'', ''11.0.0'']"

definition tie_parsed :: "semver_Version list" where
  "tie_parsed = map (\<lambda>raw. projr (NewVersion raw)) tie_versions"

definition short_parsed :: "semver_Version list" where
  "short_parsed = map (\<lambda>raw. projr (NewVersion raw)) [''12.0.0+a'', ''12.0.0+b'', ''1.0.0'', ''2.0.0'']"

section \<open>Properties of the resolver\<close>

subsection \<open>The two loops\<close>

lemma parse_versions_Inr:
  "parse_versions E versions = Inr parsed \<longleftrightarrow> map (semver_NewVersion E) versions = map Inr parsed"
proof (induction versions arbitrary: parsed)
  case Nil
  show ?case by auto
next
  case (Cons version rest)
  show ?case
  proof (cases "semver_NewVersion E version")
    case (Inl err)
    then show ?thesis by (cases parsed) simp_all
  next
    case (Inr sv)
    show ?thesis
    proof (cases "parse_versions E rest")
      case (Inl bad)
      then have "map (semver_NewVersion E) rest \<noteq> map Inr svs" for svs
        using Cons.IH[of svs] by simp
      with Inl Inr show ?thesis by (cases parsed) simp_all
    next
      case rest: (Inr svs)
      then have "map (semver_NewVersion E) rest = map Inr svs"
        using Cons.IH[of svs] by simp
      with rest Inr show ?thesis by (cases parsed) (simp_all add: inj_map_eq_map)
    qed
  qed
qed

lemma parse_versions_Inl:
  "parse_versions E versions = Inl (bad, err) \<longleftrightarrow>
     find (\<lambda>x. isl (semver_NewVersion E x)) versions = Some bad \<and> semver_NewVersion E bad = Inl err"
proof (induction versions)
  case Nil
  show ?case by simp
next
  case (Cons version rest)
  show ?case
  proof (cases "semver_NewVersion E version")
    case (Inl e)
    then show ?thesis by auto
  next
    case (Inr sv)
    then show ?thesis
      using Cons.IH by (cases "parse_versions E rest") simp_all
  qed
qed

lemma check_down_cases:
  "(check_down E k ys n = ('''', None) \<and> (\<forall>i<n. \<not> semver_Check E k (ys ! i)))
   \<or> (\<exists>i<n. semver_Check E k (ys ! i) \<and> (\<forall>j. i < j \<and> j < n \<longrightarrow> \<not> semver_Check E k (ys ! j))
          \<and> check_down E k ys n = (semver_String E (ys ! i), None))"
proof (induction n)
  case 0
  show ?case by simp
next
  case (Suc n)
  show ?case
  proof (cases "semver_Check E k (ys ! n)")
    case True
    then have "semver_Check E k (ys ! n) \<and> (\<forall>j. n < j \<and> j < Suc n \<longrightarrow> \<not> semver_Check E k (ys ! j))
               \<and> check_down E k ys (Suc n) = (semver_String E (ys ! n), None)"
      by auto
    then show ?thesis by blast
  next
    case False
    from Suc.IH show ?thesis
    proof (elim disjE conjE exE)
      assume "check_down E k ys n = ('''', None)" "\<forall>i<n. \<not> semver_Check E k (ys ! i)"
      with False show ?thesis by (auto simp: less_Suc_eq)
    next
      fix i
      assume i: "i < n" "semver_Check E k (ys ! i)"
         "\<forall>j. i < j \<and> j < n \<longrightarrow> \<not> semver_Check E k (ys ! j)"
         "check_down E k ys n = (semver_String E (ys ! i), None)"
      with False have "i < Suc n \<and> semver_Check E k (ys ! i)
          \<and> (\<forall>j. i < j \<and> j < Suc n \<longrightarrow> \<not> semver_Check E k (ys ! j))
          \<and> check_down E k ys (Suc n) = (semver_String E (ys ! i), None)"
        by (auto simp: less_Suc_eq)
      then show ?thesis by blast
    qed
  qed
qed

lemma sorts_set: "sorts srt lt xs \<Longrightarrow> set (srt lt xs) = set xs"
proof -
  assume "sorts srt lt xs"
  then have "set_mset (mset (srt lt xs)) = set_mset (mset xs)" by (simp add: sorts_def)
  then show ?thesis by simp
qed

lemma sorts_length: "sorts srt lt xs \<Longrightarrow> length (srt lt xs) = length xs"
proof -
  assume "sorts srt lt xs"
  then have "size (mset (srt lt xs)) = size (mset xs)" by (simp add: sorts_def)
  then show ?thesis by simp
qed





section \<open>Properties of the sort\<close>

lemma Swap_adjacent:
  "Swap (front @ y # x # rest) (Suc (length front)) (length front) = front @ x # y # rest"
  by (simp add: Swap_def nth_append list_update_append)

lemma insertion_inner_sift:
  "insertion_inner lt (rev ys @ x # rest) 0 (length ys) = rev (sift lt x ys) @ rest"
proof (induction ys arbitrary: rest)
  case Nil
  show ?case by simp
next
  case (Cons y ys)
  show ?case
  proof (cases "lt x y")
    case True
    have "insertion_inner lt (rev ys @ y # x # rest) 0 (Suc (length ys))
            = insertion_inner lt (Swap (rev ys @ y # x # rest) (Suc (length ys)) (length ys)) 0 (length ys)"
      using True by (simp add: Less_def nth_append)
    also have "\<dots> = insertion_inner lt (rev ys @ x # y # rest) 0 (length ys)"
      using Swap_adjacent[of "rev ys" y x rest] by simp
    also have "\<dots> = rev (sift lt x ys) @ y # rest"
      by (rule Cons.IH)
    finally show ?thesis using True by simp
  next
    case False
    then show ?thesis by (simp add: Less_def nth_append)
  qed
qed

lemma length_sift: "length (sift lt x ys) = Suc (length ys)"
  by (induction ys) simp_all

lemma set_sift: "set (sift lt x ys) = insert x (set ys)"
  by (induction ys) auto

lemma insertion_fold:
  "foldl (\<lambda>d i. insertion_inner lt d 0 i) (rev front @ rest) [length front ..< length front + length rest]
     = rev (foldl (\<lambda>f x. sift lt x f) front rest)"
proof (induction rest arbitrary: front)
  case Nil
  show ?case by simp
next
  case (Cons x rest)
  have upt: "[length front ..< length front + length (x # rest)]
               = length front # [length (sift lt x front) ..< length (sift lt x front) + length rest]"
    by (simp add: length_sift upt_rec)
  show ?case
    unfolding upt using Cons.IH[of "sift lt x front"]
    by (simp add: insertion_inner_sift)
qed

lemma insertionSort_inserted: "insertionSort lt xs 0 (length xs) = inserted lt xs"
proof (cases xs)
  case Nil
  then show ?thesis by (simp add: insertionSort_def inserted_def)
next
  case (Cons x rest)
  have "foldl (\<lambda>d i. insertion_inner lt d 0 i) (rev [x] @ rest) [length [x] ..< length [x] + length rest]
          = rev (foldl (\<lambda>f x. sift lt x f) [x] rest)"
    by (rule insertion_fold)
  with Cons show ?thesis by (simp add: insertionSort_def inserted_def)
qed

lemma Sort_short: "length xs \<le> 12 \<Longrightarrow> Sort rnd lt xs = Some (inserted lt xs)"
proof -
  assume short: "length xs \<le> 12"
  show ?thesis
  proof (cases "length xs \<le> 1")
    case True
    then have "xs = [] \<or> (\<exists>x. xs = [x])"
      by (cases xs) (auto simp: length_Suc_conv)
    then have "inserted lt xs = xs" by (auto simp: inserted_def)
    with True show ?thesis by (simp add: Sort_def)
  next
    case False
    have "pdqsort rnd lt xs (0, length xs) (bits_Len (length xs)) (True, True)
            = Some (insertionSort lt xs 0 (length xs))"
      using short by (subst pdqsort.simps) simp
    with False show ?thesis by (simp add: Sort_def Let_def insertionSort_inserted)
  qed
qed

lemma filter_sift:
  assumes "\<forall>y\<in>set ys. p x \<and> p y \<longrightarrow> \<not> lt x y"
  shows "filter p (rev (sift lt x ys)) = filter p (rev ys) @ filter p [x]"
  using assms by (induction ys) auto

lemma filter_foldl_sift:
  assumes "\<forall>x\<in>set rest. \<forall>y\<in>set front \<union> set rest. p x \<and> p y \<longrightarrow> \<not> lt x y"
  shows "filter p (rev (foldl (\<lambda>f x. sift lt x f) front rest)) = filter p (rev front) @ filter p rest"
  using assms
proof (induction rest arbitrary: front)
  case Nil
  show ?case by simp
next
  case (Cons x rest)
  have step: "filter p (rev (sift lt x front)) = filter p (rev front) @ filter p [x]"
    using Cons.prems by (intro filter_sift) auto
  have "filter p (rev (foldl (\<lambda>f x. sift lt x f) (sift lt x front) rest))
          = filter p (rev (sift lt x front)) @ filter p rest"
    using Cons.prems by (intro Cons.IH) (auto simp: set_sift)
  with step show ?case by simp
qed

lemma inserted_stable:
  assumes "\<forall>x\<in>set xs. \<forall>y\<in>set xs. p x \<and> p y \<longrightarrow> \<not> lt x y"
  shows "filter p (inserted lt xs) = filter p xs"
  using filter_foldl_sift[of xs "[]" p lt] assms by (simp add: inserted_def)


lemma scan_up_ge: "i \<le> scan_up p i j"
proof (induction p i j rule: scan_up.induct)
  case (1 p i j)
  show ?case
  proof (cases "i \<le> j \<and> p i")
    case True
    with 1 have "i + 1 \<le> scan_up p (i + 1) j" by simp
    with True show ?thesis by (subst scan_up.simps) simp
  next
    case False
    then show ?thesis by (subst scan_up.simps) auto
  qed
qed

lemma scan_down_bounds: "scan_down p i j \<le> j \<and> min i (Suc j) \<le> Suc (scan_down p i j)"
  by (induction j) auto

lemma partition_loop_returns:
  "\<exists>d r. partition_loop lt a data i j = Some (d, r) \<and> r \<le> j \<and> min i (Suc j) \<le> Suc r"
proof (induction "Suc j - i" arbitrary: data i j rule: less_induct)
  case less
  let ?i = "scan_up (\<lambda>k. Less lt data k a) i j"
  let ?j = "scan_down (\<lambda>k. \<not> Less lt data k a) ?i j"
  have i: "i \<le> ?i" by (rule scan_up_ge)
  have j: "?j \<le> j" "min ?i (Suc j) \<le> Suc ?j"
    using scan_down_bounds[of "\<lambda>k. \<not> Less lt data k a" ?i j] by simp_all
  show ?case
  proof (cases "?i > ?j")
    case True
    then have "partition_loop lt a data i j = Some (data, ?j)"
      by (subst partition_loop.simps) (simp add: Let_def)
    moreover have "min i (Suc j) \<le> Suc ?j" using i j by simp
    ultimately show ?thesis using j(1) by blast
  next
    case False
    then have step: "partition_loop lt a data i j = partition_loop lt a (Swap data ?i ?j) (?i + 1) (?j - 1)"
      by (subst partition_loop.simps) (simp add: Let_def)
    have "Suc (?j - 1) - (?i + 1) < Suc j - i"
      using False i j(1) by linarith
    from less[OF this, of "Swap data ?i ?j"]
    obtain d r where r: "partition_loop lt a (Swap data ?i ?j) (?i + 1) (?j - 1) = Some (d, r)"
        "r \<le> ?j - 1" "min (?i + 1) (Suc (?j - 1)) \<le> Suc r"
      by blast
    have "r \<le> j" using r(2) j(1) by linarith
    moreover have "min i (Suc j) \<le> Suc r" using r(3) i False by auto
    ultimately show ?thesis using step r(1) by auto
  qed
qed

lemma partition_returns:
  assumes "a < b"
  shows "\<exists>d mid flag. partition' lt data a b pivot = Some (d, mid, flag) \<and> a \<le> mid \<and> mid < b"
proof -
  let ?d = "Swap data a pivot"
  let ?i = "scan_up (\<lambda>k. Less lt ?d k a) (a + 1) (b - 1)"
  let ?j = "scan_down (\<lambda>k. \<not> Less lt ?d k a) ?i (b - 1)"
  have i: "a + 1 \<le> ?i" by (rule scan_up_ge)
  have j: "?j \<le> b - 1" "min ?i (Suc (b - 1)) \<le> Suc ?j"
    using scan_down_bounds[of "\<lambda>k. \<not> Less lt ?d k a" ?i "b - 1"] by simp_all
  have lower: "a \<le> ?j" using i j(2) assms by auto
  have upper: "?j < b" using j(1) assms by linarith
  show ?thesis
  proof (cases "?i > ?j")
    case True
    then have "partition' lt data a b pivot = Some (Swap ?d ?j a, ?j, True)"
      by (simp add: partition'_def Let_def)
    with lower upper show ?thesis by blast
  next
    case False
    from partition_loop_returns[of lt a "Swap ?d ?i ?j" "?i + 1" "?j - 1"]
    obtain d r where r: "partition_loop lt a (Swap ?d ?i ?j) (?i + 1) (?j - 1) = Some (d, r)"
        "r \<le> ?j - 1" "min (?i + 1) (Suc (?j - 1)) \<le> Suc r"
      by blast
    from False r(1) have "partition' lt data a b pivot = Some (Swap d r a, r, False)"
      by (simp add: partition'_def Let_def)
    moreover have "a \<le> r"
    proof -
      have "?i \<le> ?j" using False by simp
      with i have "a + 1 \<le> ?i + 1" "a + 1 \<le> Suc (?j - 1)" by linarith+
      then have "a + 1 \<le> min (?i + 1) (Suc (?j - 1))" by simp
      with r(3) show ?thesis by linarith
    qed
    moreover have "r < b" using r(2) upper by linarith
    ultimately show ?thesis by blast
  qed
qed

lemma partitionEqual_loop_returns:
  "\<exists>d r. partitionEqual_loop lt a data i j = Some (d, r) \<and> i \<le> r"
proof (induction "Suc j - i" arbitrary: data i j rule: less_induct)
  case less
  let ?i = "scan_up (\<lambda>k. \<not> Less lt data a k) i j"
  let ?j = "scan_down (\<lambda>k. Less lt data a k) ?i j"
  have i: "i \<le> ?i" by (rule scan_up_ge)
  have j: "?j \<le> j"
    using scan_down_bounds[of "\<lambda>k. Less lt data a k" ?i j] by simp
  show ?case
  proof (cases "?i > ?j")
    case True
    then have "partitionEqual_loop lt a data i j = Some (data, ?i)"
      by (subst partitionEqual_loop.simps) (simp add: Let_def)
    with i show ?thesis by blast
  next
    case False
    then have step: "partitionEqual_loop lt a data i j
                       = partitionEqual_loop lt a (Swap data ?i ?j) (?i + 1) (?j - 1)"
      by (subst partitionEqual_loop.simps) (simp add: Let_def)
    have "Suc (?j - 1) - (?i + 1) < Suc j - i"
      using False i j by linarith
    from less[OF this, of "Swap data ?i ?j"]
    obtain d r where r: "partitionEqual_loop lt a (Swap data ?i ?j) (?i + 1) (?j - 1) = Some (d, r)"
        "?i + 1 \<le> r"
      by blast
    then show ?thesis using step i by auto
  qed
qed

lemma partitionEqual_returns:
  "\<exists>d mid. partitionEqual lt data a b pivot = Some (d, mid) \<and> a < mid"
  using partitionEqual_loop_returns[of lt a "Swap data a pivot" "a + 1" "b - 1"]
  by (auto simp: partitionEqual_def)

lemma pdqsort_returns:
  "\<exists>result. pdqsort rnd lt data (a, b) limit was = Some result"
proof (induction "b - a" arbitrary: data a b limit was rule: less_induct)
  case less
  show ?case
  proof (cases "b - a \<le> 12 \<or> limit = 0")
    case True
    then show ?thesis by (subst pdqsort.simps) auto
  next
    case False
    then have long: "\<not> b - a \<le> 12" and lim: "\<not> limit = 0" by simp_all
    obtain d3 pivot limit' finished
      where start: "round_start rnd lt data a b limit (fst was) (snd was) = (d3, pivot, limit', finished)"
      by (cases "round_start rnd lt data a b limit (fst was) (snd was)") auto
    define equal_part where "equal_part = (a > 0 \<and> \<not> Less lt d3 (a - 1) pivot)"
    have unfold: "pdqsort rnd lt data (a, b) limit was =
       (if finished then Some d3
        else if equal_part
        then Option.bind (partitionEqual lt d3 a b pivot)
               (\<lambda>(d4, mid). pdqsort rnd lt d4 (mid, b) limit' was)
        else Option.bind (partition' lt d3 a b pivot)
               (\<lambda>(d4, mid, alreadyPartitioned).
                  if mid - a < b - mid
                  then Option.bind (pdqsort rnd lt d4 (a, mid) limit' (True, True))
                         (\<lambda>d5. pdqsort rnd lt d5 (mid + 1, b) limit'
                                  (mid - a \<ge> (b - a) div 8, alreadyPartitioned))
                  else Option.bind (pdqsort rnd lt d4 (mid + 1, b) limit' (True, True))
                         (\<lambda>d5. pdqsort rnd lt d5 (a, mid) limit'
                                  (b - mid \<ge> (b - a) div 8, alreadyPartitioned))))"
      apply (subst pdqsort.simps)
      unfolding Let_def fst_conv snd_conv start prod.case equal_part_def
      by (simp only: long lim if_False)
    show ?thesis
    proof (cases finished)
      case True
      with unfold show ?thesis by simp
    next
      case unfinished: False
      show ?thesis
      proof (cases equal_part)
        case True
        from partitionEqual_returns[of lt d3 a b pivot]
        obtain d4 mid where eq: "partitionEqual lt d3 a b pivot = Some (d4, mid)" "a < mid"
          by blast
        have "b - mid < b - a" using eq(2) long by linarith
        from less[OF this] obtain result
          where result: "pdqsort rnd lt d4 (mid, b) limit' was = Some result"
          by blast
        have "pdqsort rnd lt data (a, b) limit was =
                Option.bind (partitionEqual lt d3 a b pivot)
                  (\<lambda>(d4, mid). pdqsort rnd lt d4 (mid, b) limit' was)"
          using unfinished True by (simp add: unfold)
        with eq(1) result show ?thesis by simp
      next
        case False
        have "a < b" using long by linarith
        from partition_returns[OF this, of lt d3 pivot]
        obtain d4 mid flag where part: "partition' lt d3 a b pivot = Some (d4, mid, flag)"
            "a \<le> mid" "mid < b"
          by blast
        have left: "mid - a < b - a" and right: "b - (mid + 1) < b - a"
          using part(2,3) by linarith+
        have run: "pdqsort rnd lt data (a, b) limit was =
                (if mid - a < b - mid
                 then Option.bind (pdqsort rnd lt d4 (a, mid) limit' (True, True))
                        (\<lambda>d5. pdqsort rnd lt d5 (mid + 1, b) limit'
                                 (mid - a \<ge> (b - a) div 8, flag))
                 else Option.bind (pdqsort rnd lt d4 (mid + 1, b) limit' (True, True))
                        (\<lambda>d5. pdqsort rnd lt d5 (a, mid) limit'
                                 (b - mid \<ge> (b - a) div 8, flag)))"
          using unfinished False part(1) by (simp add: unfold)
        show ?thesis
        proof (cases "mid - a < b - mid")
          case True
          from less[OF left] obtain d5
            where d5: "pdqsort rnd lt d4 (a, mid) limit' (True, True) = Some d5"
            by blast
          from less[OF right] obtain result
            where "pdqsort rnd lt d5 (mid + 1, b) limit' (mid - a \<ge> (b - a) div 8, flag) = Some result"
            by blast
          with run True d5 show ?thesis by simp
        next
          case right_first: False
          from less[OF right] obtain d5
            where d5: "pdqsort rnd lt d4 (mid + 1, b) limit' (True, True) = Some d5"
            by blast
          from less[OF left] obtain result
            where "pdqsort rnd lt d5 (a, mid) limit' (b - mid \<ge> (b - a) div 8, flag) = Some result"
            by blast
          with run right_first d5 show ?thesis by simp
        qed
      qed
    qed
  qed
qed

lemma Sort_returns: "\<exists>result. Sort rnd lt data = Some result"
  using pdqsort_returns[of rnd lt data 0 "length data" "bits_Len (length data)" "(True, True)"] by (simp add: Sort_def Let_def)


section \<open>Facts about the example package\<close>

lemma example_env_simps:
  "semver_NewVersion example_env = NewVersion"
  "semver_LessThan example_env = LessThan"
  "semver_String example_env = String"
  "semver_NewConstraint example_env = NewConstraint"
  "semver_Check example_env = Check"
  "sort_Sort example_env = go_Sort xorshift_Next"
  by (simp_all add: example_env_def)





lemma example_parse:
  "map (semver_NewVersion example_env) example_versions = map Inr example_parsed"
  by code_simp

lemma example_sorts:
  "sorts (sort_Sort example_env) (semver_LessThan example_env) example_parsed"
proof -
  have short: "length example_parsed \<le> 12"
    by (simp add: example_parsed_def)
  have "inserted LessThan example_parsed = example_parsed"
    by code_simp
  then have same: "go_Sort xorshift_Next LessThan example_parsed = example_parsed"
    using Sort_short[OF short, of xorshift_Next LessThan] by (simp add: go_Sort_def)
  have "sorted_wrt (\<lambda>a b. \<not> LessThan b a) example_parsed"
    by code_simp
  with same show ?thesis
    by (simp add: sorts_def example_env_simps)
qed



section \<open>The claims about the resolver\<close>

text \<open>
  C1. The claim: a call of \<open>getLatestVersion\<close> with an empty list of versions and an empty
  constraint ends in an explicit failure (no versions available), never in an
  out-of-range fault. The code does not do this: the parsed slice is empty, sorting
  leaves it empty, and the read of its last element is a read at index \<open>-1\<close>, which
  panics. The theorem is what the code does at that input.
\<close>

theorem getLatestVersion_empty_panics:
  assumes "sorts (sort_Sort E) (semver_LessThan E) []"
  shows "getLatestVersion E [] '''' = Panics (IndexOutOfRange (- 1) 0)"
proof -
  have "length (sort_Sort E (semver_LessThan E) []) = 0"
    using sorts_length[OF assms] by simp
  then show ?thesis by (simp add: getLatestVersion_def)
qed

theorem getLatestVersion_empty_panics_witness:
  "getLatestVersion example_env [] '''' = Panics (IndexOutOfRange (- 1) 0)"
proof -
  have "sorts (sort_Sort example_env) (semver_LessThan example_env) []"
    by (simp add: sorts_def example_env_simps go_Sort_def Sort_def)
  then show ?thesis by (rule getLatestVersion_empty_panics)
qed

text \<open>
  The fault is reached from \<open>SelectChartVersion\<close>: an index that lists the chart with no
  entries, and no constraint.
\<close>

lemma SelectChartVersion_no_entries_panics:
  assumes "HasPrefix repoURL ''https://''"
      and "http_NewRequest E ''GET'' (index_URL repoURL) = Inr req0"
      and "http_Do E (with_credentials creds req0) = Inr res"
      and "StatusCode res = 200"
      and "Body res = Inr body"
      and "yaml_Unmarshal E body = Inr idx"
      and "Entries idx chart = Some []"
      and "sorts (sort_Sort E) (semver_LessThan E) []"
  shows "fst (SelectChartVersion E repoURL chart '''' creds) = Panics (IndexOutOfRange (- 1) 0)"
proof -
  have "length (sort_Sort E (semver_LessThan E) []) = 0"
    using sorts_length[OF assms(8)] by simp
  then have "getLatestVersion E [] '''' = Panics (IndexOutOfRange (- 1) 0)"
    by (simp add: getLatestVersion_def)
  with assms(1-7) show ?thesis
    by (simp add: SelectChartVersion_def select_fetched_def getChartVersionsFromClassicRepo_def)
qed

text \<open>
  C2. When at least one raw string of the list does not parse, \<open>getLatestVersion\<close>
  returns the empty string and the parser's error for the first such string, wrapped in
  a message that names that string; this holds for every constraint, and whatever else
  the list contains. The example of the specification: the list
  \<open>["1.0.0", "not-a-version"]\<close>.
\<close>

theorem getLatestVersion_parse_failure:
  assumes "\<exists>x\<in>set versions. isl (semver_NewVersion E x)"
  shows "(\<exists>bad err. find (\<lambda>x. isl (semver_NewVersion E x)) versions = Some bad
            \<and> semver_NewVersion E bad = Inl err
            \<and> getLatestVersion E versions constraintStr =
                Returns ('''', Some (Wrapped err [Lit ''error parsing version '', Q bad])))
         \<and> getLatestVersion example_env [''1.0.0'', ''not-a-version''] constraintStr =
             Returns ('''', Some (Wrapped (Foreign ''Invalid Semantic Version'')
                                   [Lit ''error parsing version '', Q ''not-a-version'']))"
proof
  from assms obtain bad where bad: "find (\<lambda>x. isl (semver_NewVersion E x)) versions = Some bad"
    by (meson find_None_iff not_Some_eq)
  then have "isl (semver_NewVersion E bad)"
    by (auto simp: find_Some_iff)
  then obtain err where err: "semver_NewVersion E bad = Inl err"
    by (cases "semver_NewVersion E bad") auto
  with bad have "parse_versions E versions = Inl (bad, err)"
    by (simp add: parse_versions_Inl)
  then have "getLatestVersion E versions constraintStr =
      Returns ('''', Some (Wrapped err [Lit ''error parsing version '', Q bad]))"
    by (simp add: getLatestVersion_def Wrapf_def)
  with bad err show "\<exists>bad err. find (\<lambda>x. isl (semver_NewVersion E x)) versions = Some bad
            \<and> semver_NewVersion E bad = Inl err
            \<and> getLatestVersion E versions constraintStr =
                Returns ('''', Some (Wrapped err [Lit ''error parsing version '', Q bad]))"
    by blast
next
  have "parse_versions example_env [''1.0.0'', ''not-a-version'']
          = Inl (''not-a-version'', Foreign ''Invalid Semantic Version'')"
    by code_simp
  then show "getLatestVersion example_env [''1.0.0'', ''not-a-version''] constraintStr =
             Returns ('''', Some (Wrapped (Foreign ''Invalid Semantic Version'')
                                   [Lit ''error parsing version '', Q ''not-a-version'']))"
    by (simp add: getLatestVersion_def Wrapf_def)
qed

theorem getLatestVersion_parse_failure_witness:
  "find (\<lambda>x. isl (semver_NewVersion example_env x)) [''1.0.0'', ''not-a-version'', ''2.0.0'', ''x'']
     = Some ''not-a-version''
   \<and> getLatestVersion example_env [''1.0.0'', ''not-a-version'', ''2.0.0'', ''x''] ''^1.0.0'' =
       Returns ('''', Some (Wrapped (Foreign ''Invalid Semantic Version'')
                             [Lit ''error parsing version '', Q ''not-a-version'']))"
proof -
  have f: "find (\<lambda>x. isl (semver_NewVersion example_env x)) [''1.0.0'', ''not-a-version'', ''2.0.0'', ''x'']
             = Some ''not-a-version''"
    by code_simp
  have e: "semver_NewVersion example_env ''not-a-version'' = Inl (Foreign ''Invalid Semantic Version'')"
    by code_simp
  have h: "\<exists>x\<in>set [''1.0.0'', ''not-a-version'', ''2.0.0'', ''x'']. isl (semver_NewVersion example_env x)"
    using e by simp
  from getLatestVersion_parse_failure[OF h, of "''^1.0.0''"] f e show ?thesis
    by auto
qed


lemma parsed_from_raw:
  assumes "map (semver_NewVersion E) versions = map Inr parsed" and "sv \<in> set parsed"
  shows "\<exists>raw\<in>set versions. semver_NewVersion E raw = Inr sv"
proof -
  from assms(2) obtain i where i: "i < length parsed" "parsed ! i = sv"
    by (metis in_set_conv_nth)
  have len: "length versions = length parsed"
    using assms(1) by (metis length_map)
  have "map (semver_NewVersion E) versions ! i = map Inr parsed ! i"
    using assms(1) by simp
  with i len have "semver_NewVersion E (versions ! i) = Inr sv"
    by simp
  moreover have "versions ! i \<in> set versions"
    using i(1) len by simp
  ultimately show ?thesis by blast
qed


lemma example_caret_3:
  "semver_NewConstraint example_env ''^3.0.0'' =
     Inr [[\<lparr>origfunc = ''^'',
            con = \<lparr>major = 3, minor = 0, patch = 0, pre = [], metadata = [],
                   original = ''3.0.0''\<rparr>\<rparr>]]"
  by code_simp



subsection \<open>The order of the example package\<close>








text \<open>
  C6. When every raw string parses, the constraint is not empty and parses, and no
  version of the list satisfies it, \<open>getLatestVersion\<close> returns the empty string and no
  error. The example of the specification: constraint \<open>^3.0.0\<close>.
\<close>

theorem getLatestVersion_no_match:
  assumes parsed: "map (semver_NewVersion E) versions = map Inr parsed"
      and nonempty: "constraintStr \<noteq> ''''"
      and valid: "semver_NewConstraint E constraintStr = Inr k"
      and sorted: "sorts (sort_Sort E) (semver_LessThan E) parsed"
      and none: "\<forall>v\<in>set parsed. \<not> semver_Check E k v"
  shows "getLatestVersion E versions constraintStr = Returns ('''', None)
         \<and> getLatestVersion example_env [''1.0.0'', ''1.2.0'', ''2.0.0-beta''] ''^3.0.0''
             = Returns ('''', None)"
proof
  have p: "parse_versions E versions = Inr parsed"
    using parsed by (simp add: parse_versions_Inr)
  let ?ys = "sort_Sort E (semver_LessThan E) parsed"
  have run: "getLatestVersion E versions constraintStr = Returns (check_down E k ?ys (length ?ys))"
    using p nonempty valid by (simp add: getLatestVersion_def Let_def)
  have "\<not> semver_Check E k (?ys ! i)" if "i < length ?ys" for i
    using that none sorts_set[OF sorted] nth_mem by blast
  with check_down_cases[of E k ?ys "length ?ys"]
  have "check_down E k ?ys (length ?ys) = ('''', None)"
    by blast
  with run show "getLatestVersion E versions constraintStr = Returns ('''', None)"
    by simp
next
  show "getLatestVersion example_env [''1.0.0'', ''1.2.0'', ''2.0.0-beta''] ''^3.0.0''
             = Returns ('''', None)"
    by code_simp
qed

theorem getLatestVersion_no_match_witness:
  "getLatestVersion example_env example_versions ''^3.0.0'' = Returns ('''', None)"
proof -
  have nonempty: "''^3.0.0'' \<noteq> ''''" by simp
  have none: "\<forall>v\<in>set example_parsed.
      \<not> semver_Check example_env
        [[\<lparr>origfunc = ''^'',
           con = \<lparr>major = 3, minor = 0, patch = 0, pre = [], metadata = [],
                  original = ''3.0.0''\<rparr>\<rparr>]] v"
    by code_simp
  from getLatestVersion_no_match[OF example_parse nonempty example_caret_3 example_sorts none]
  show ?thesis by simp
qed

text \<open>
  C10. A string that \<open>getLatestVersion\<close> returns as the winner is the rendering, by the
  package's \<open>String\<close>, of the parsed form of one of the raw strings; it is not the raw
  string itself. In the example package the rendering is major, minor and patch number
  with the prerelease and the build metadata: the raw string \<open>v1.2.3\<close> gives \<open>1.2.3\<close>,
  which is not in the list, and \<open>1.2\<close> gives \<open>1.2.0\<close>.
\<close>

theorem getLatestVersion_renders_parsed:
  assumes result: "getLatestVersion E versions constraintStr = Returns (r, None)"
      and winner: "r \<noteq> ''''"
      and parsed: "map (semver_NewVersion E) versions = map Inr parsed"
      and sorted: "sorts (sort_Sort E) (semver_LessThan E) parsed"
  shows "(\<exists>raw\<in>set versions. \<exists>sv. semver_NewVersion E raw = Inr sv \<and> r = semver_String E sv)
         \<and> getLatestVersion example_env [''v1.2.3''] '''' = Returns (''1.2.3'', None)
         \<and> ''1.2.3'' \<notin> set [''v1.2.3'']
         \<and> getLatestVersion example_env [''1.2'', ''v1.0.0-rc.1+build.7''] ''''
             = Returns (''1.2.0'', None)
         \<and> getLatestVersion example_env [''v1.0.0-rc.1+build.7''] ''''
             = Returns (''1.0.0-rc.1+build.7'', None)"
proof (intro conjI)
  have p: "parse_versions E versions = Inr parsed"
    using parsed by (simp add: parse_versions_Inr)
  let ?ys = "sort_Sort E (semver_LessThan E) parsed"
  have set_eq: "set ?ys = set parsed"
    using sorted by (rule sorts_set)
  have "\<exists>sv\<in>set parsed. r = semver_String E sv"
  proof (cases "constraintStr = ''''")
    case True
    with result p have n: "length ?ys \<noteq> 0" and r: "r = semver_String E (?ys ! (length ?ys - 1))"
      by (auto simp: getLatestVersion_def Let_def split: if_splits)
    from n have "?ys ! (length ?ys - 1) \<in> set ?ys" by simp
    with r set_eq show ?thesis by blast
  next
    case False
    with result p obtain k where k: "semver_NewConstraint E constraintStr = Inr k"
        and c: "check_down E k ?ys (length ?ys) = (r, None)"
      by (cases "semver_NewConstraint E constraintStr")
         (auto simp: getLatestVersion_def Let_def Wrapf_def)
    from check_down_cases[of E k ?ys "length ?ys"] c winner
    obtain i where "i < length ?ys" "r = semver_String E (?ys ! i)"
      by auto
    then show ?thesis using set_eq nth_mem by blast
  qed
  then obtain sv where sv: "sv \<in> set parsed" "r = semver_String E sv" by blast
  from parsed_from_raw[OF parsed sv(1)] sv(2)
  show "\<exists>raw\<in>set versions. \<exists>sv. semver_NewVersion E raw = Inr sv \<and> r = semver_String E sv"
    by blast
next
  show "getLatestVersion example_env [''v1.2.3''] '''' = Returns (''1.2.3'', None)"
    by code_simp
next
  show "''1.2.3'' \<notin> set [''v1.2.3'']" by simp
next
  show "getLatestVersion example_env [''1.2'', ''v1.0.0-rc.1+build.7''] ''''
             = Returns (''1.2.0'', None)"
    by code_simp
next
  show "getLatestVersion example_env [''v1.0.0-rc.1+build.7''] ''''
             = Returns (''1.0.0-rc.1+build.7'', None)"
    by code_simp
qed

theorem getLatestVersion_renders_parsed_witness:
  "\<exists>raw\<in>set example_versions. \<exists>sv.
      semver_NewVersion example_env raw = Inr sv \<and> ''1.2.0'' = semver_String example_env sv"
proof -
  have result: "getLatestVersion example_env example_versions ''^1.0.0'' = Returns (''1.2.0'', None)"
    by code_simp
  have winner: "''1.2.0'' \<noteq> ''''" by simp
  from getLatestVersion_renders_parsed[OF result winner example_parse example_sorts]
  show ?thesis by blast
qed


section \<open>Properties of the fetchers and of SelectChartVersion\<close>

lemma TrimSuffix_slash: "TrimSuffix (base @ ''/'') ''/'' = base"
  by (simp add: TrimSuffix_def HasSuffix_def)

lemma TrimSuffix_none: "\<not> HasSuffix s p \<Longrightarrow> TrimSuffix s p = s"
  by (simp add: TrimSuffix_def)

lemma classic_fetch_200:
  assumes "http_NewRequest E ''GET'' (index_URL repoURL) = Inr req0"
      and "http_Do E (with_credentials creds req0) = Inr res"
      and "StatusCode res = 200"
      and "Body res = Inr body"
      and "yaml_Unmarshal E body = Inr idx"
  shows "getChartVersionsFromClassicRepo E repoURL chart creds =
           ((case Entries idx chart of
               None \<Rightarrow> ([], Some (Errorf [Lit ''no versions of chart '', Q chart,
                                           Lit '' found in repository index from '',
                                           Q (index_URL repoURL)]))
             | Some entries \<Rightarrow> (map Version entries, None)),
            [HTTPDo (with_credentials creds req0)])"
  using assms
  by (simp add: getChartVersionsFromClassicRepo_def Let_def split: option.split)

text \<open>
  C8. A classic fetch that gets a response with status 200 whose body is read and is
  unmarshalled into an index: when the index has no entry for the chart, the fetch fails
  with an error that names the chart and the index URL; otherwise it returns the
  \<open>version\<close> of every entry of the chart, in the order of the index, each as often as it
  is listed. The index URL is the repository URL without its trailing slash, followed by
  \<open>/index.yaml\<close>.
\<close>

theorem classic_fetch_versions:
  assumes "http_NewRequest E ''GET'' (index_URL repoURL) = Inr req0"
      and "http_Do E (with_credentials creds req0) = Inr res"
      and "StatusCode res = 200"
      and "Body res = Inr body"
      and "yaml_Unmarshal E body = Inr idx"
  shows "(Entries idx chart = None \<longrightarrow>
            fst (getChartVersionsFromClassicRepo E repoURL chart creds) =
              ([], Some (Errorf [Lit ''no versions of chart '', Q chart,
                                 Lit '' found in repository index from '',
                                 Q (TrimSuffix repoURL ''/'' @ ''/index.yaml'')])))
         \<and> (\<forall>entries. Entries idx chart = Some entries \<longrightarrow>
               fst (getChartVersionsFromClassicRepo E repoURL chart creds) =
                 (map Version entries, None))
         \<and> (\<forall>base. index_URL (base @ ''/'') = base @ ''/index.yaml'')
         \<and> (\<not> HasSuffix repoURL ''/'' \<longrightarrow> index_URL repoURL = repoURL @ ''/index.yaml'')"
proof (intro conjI)
  show "Entries idx chart = None \<longrightarrow>
            fst (getChartVersionsFromClassicRepo E repoURL chart creds) =
              ([], Some (Errorf [Lit ''no versions of chart '', Q chart,
                                 Lit '' found in repository index from '',
                                 Q (TrimSuffix repoURL ''/'' @ ''/index.yaml'')]))"
    using classic_fetch_200[OF assms, of chart] by (simp add: index_URL_def)
next
  show "\<forall>entries. Entries idx chart = Some entries \<longrightarrow>
               fst (getChartVersionsFromClassicRepo E repoURL chart creds) =
                 (map Version entries, None)"
    using classic_fetch_200[OF assms, of chart] by simp
next
  show "\<forall>base. index_URL (base @ ''/'') = base @ ''/index.yaml''"
    by (simp add: index_URL_def TrimSuffix_slash)
next
  show "\<not> HasSuffix repoURL ''/'' \<longrightarrow> index_URL repoURL = repoURL @ ''/index.yaml''"
    by (simp add: index_URL_def TrimSuffix_none)
qed

lemma example_request:
  "http_NewRequest example_env2 ''GET'' (index_URL ''https://charts.example.com/'') =
     Inr \<lparr>Method = ''GET'', URL = ''https://charts.example.com/index.yaml'', BasicAuth = None\<rparr>"
  by (simp add: example_env2_def example_env_def index_URL_def TrimSuffix_def HasSuffix_def)

theorem classic_fetch_versions_witness:
  "fst (getChartVersionsFromClassicRepo example_env2 ''https://charts.example.com/'' ''redis''
          (Some \<lparr>Username = ''admin'', Password = ''hunter2''\<rparr>))
     = ([''2.0.0'', ''1.0.0'', ''2.0.0''], None)
   \<and> fst (getChartVersionsFromClassicRepo example_env2 ''https://charts.example.com/'' ''nginx''
          (Some \<lparr>Username = ''admin'', Password = ''hunter2''\<rparr>))
     = ([], Some (Errorf [Lit ''no versions of chart '', Q ''nginx'',
                          Lit '' found in repository index from '',
                          Q ''https://charts.example.com/index.yaml'']))"
proof -
  let ?creds = "Some \<lparr>Username = ''admin'', Password = ''hunter2''\<rparr>"
  let ?req0 = "\<lparr>Method = ''GET'', URL = ''https://charts.example.com/index.yaml'', BasicAuth = None\<rparr>"
  let ?res = "\<lparr>StatusCode = 200, Body = Inr ''entries: ...''\<rparr>"
  let ?idx = "\<lparr>Entries = ['''' \<mapsto> [\<lparr>Version = ''1.0.0''\<rparr>],
                         ''redis'' \<mapsto> [\<lparr>Version = ''2.0.0''\<rparr>, \<lparr>Version = ''1.0.0''\<rparr>,
                                          \<lparr>Version = ''2.0.0''\<rparr>]]\<rparr>"
  have do: "http_Do example_env2 (with_credentials ?creds ?req0) = Inr ?res"
    by (simp add: example_env2_def example_env_def with_credentials_def SetBasicAuth_def)
  have status: "StatusCode ?res = 200" by simp
  have body: "Body ?res = Inr ''entries: ...''" by simp
  have yaml: "yaml_Unmarshal example_env2 ''entries: ...'' = Inr ?idx"
    by (simp add: example_env2_def)
  have trim: "TrimSuffix ''https://charts.example.com/'' ''/'' = ''https://charts.example.com''"
    by (simp add: TrimSuffix_def HasSuffix_def)
  from classic_fetch_versions[OF example_request do status body yaml, of "''redis''"]
       classic_fetch_versions[OF example_request do status body yaml, of "''nginx''"] trim
  show ?thesis by simp
qed


lemma snd_check_down: "snd (check_down E k ys n) = None"
  by (induction n) simp_all

lemma getLatestVersion_error_value:
  assumes "getLatestVersion E versions constraintStr = Returns (v, Some e)"
  shows "v = ''''"
proof (cases "parse_versions E versions")
  case (Inl bad)
  with assms show ?thesis
    by (cases bad) (simp add: getLatestVersion_def)
next
  case (Inr parsed)
  show ?thesis
  proof (cases "constraintStr = ''''")
    case True
    with assms Inr show ?thesis
      by (simp add: getLatestVersion_def Let_def split: if_splits)
  next
    case False
    show ?thesis
    proof (cases "semver_NewConstraint E constraintStr")
      case (Inl err)
      with assms Inr False show ?thesis
        by (simp add: getLatestVersion_def Let_def)
    next
      case k: (Inr k)
      let ?ys = "sort_Sort E (semver_LessThan E) parsed"
      from assms Inr False k have "check_down E k ?ys (length ?ys) = (v, Some e)"
        by (simp add: getLatestVersion_def Let_def)
      then have "snd (check_down E k ?ys (length ?ys)) = Some e" by simp
      then show ?thesis by (simp add: snd_check_down)
    qed
  qed
qed

text \<open>The outcome of \<open>SelectChartVersion\<close> as a function of what the fetcher returned.\<close>

lemma fst_select_fetched:
  "fst (select_fetched E repoURL chart constraintStr ((versions, err), sent)) =
     (case err of
        Some e \<Rightarrow> Returns ('''', Some (Wrapped e [Lit ''error retrieving versions of chart '', Q chart,
                                                  Lit '' from repository '', Q repoURL]))
      | None \<Rightarrow>
          (case getLatestVersion E versions constraintStr of
             Panics p \<Rightarrow> Panics p
           | Returns (latestVersion, err') \<Rightarrow>
               Returns (latestVersion,
                        Wrapf err' [Lit ''error determining latest version of chart '', Q chart,
                                    Lit '' from repository '', Q repoURL])))"
  by (simp add: select_fetched_def Wrapf_def split: option.split outcome.split prod.split)

lemma select_fetched_congr:
  "fst fetched = fst fetched' \<Longrightarrow>
   fst (select_fetched E repoURL chart constraintStr fetched)
     = fst (select_fetched E repoURL chart constraintStr fetched')"
proof -
  assume same: "fst fetched = fst fetched'"
  obtain versions err sent where f: "fetched = ((versions, err), sent)"
    by (metis prod.collapse)
  obtain versions' err' sent' where f': "fetched' = ((versions', err'), sent')"
    by (metis prod.collapse)
  from same f f' have "versions' = versions" "err' = err" by simp_all
  with f f' show ?thesis by (simp only: fst_select_fetched)
qed

lemma select_fetched_error:
  assumes "fst (select_fetched E repoURL chart constraintStr fetched) = Returns (v, Some e)"
  shows "v = '''' \<and>
         ((\<exists>cause. e = Wrapped cause [Lit ''error retrieving versions of chart '', Q chart,
                                      Lit '' from repository '', Q repoURL])
          \<or> (\<exists>cause. e = Wrapped cause [Lit ''error determining latest version of chart '', Q chart,
                                         Lit '' from repository '', Q repoURL]))"
proof -
  obtain versions err sent where f: "fetched = ((versions, err), sent)"
    by (metis prod.collapse)
  show ?thesis
  proof (cases err)
    case (Some cause)
    with assms f show ?thesis by (auto simp: fst_select_fetched)
  next
    case None
    show ?thesis
    proof (cases "getLatestVersion E versions constraintStr")
      case (Panics p)
      with assms f None show ?thesis by (simp add: fst_select_fetched)
    next
      case (Returns res)
      obtain latestVersion err' where res: "res = (latestVersion, err')" by (cases res)
      show ?thesis
      proof (cases err')
        case None': None
        with assms f None Returns res show ?thesis
          by (simp add: fst_select_fetched Wrapf_def)
      next
        case (Some cause)
        with Returns res have "latestVersion = ''''"
          using getLatestVersion_error_value by blast
        with assms f None Returns res Some show ?thesis
          by (auto simp: fst_select_fetched Wrapf_def)
      qed
    qed
  qed
qed

lemma classic_fetch_credentials:
  assumes "\<forall>req. http_Do E (with_credentials creds1 req) = http_Do E (with_credentials creds2 req)"
  shows "fst (getChartVersionsFromClassicRepo E repoURL chart creds1)
           = fst (getChartVersionsFromClassicRepo E repoURL chart creds2)"
proof (cases "http_NewRequest E ''GET'' (index_URL repoURL)")
  case (Inl err)
  then show ?thesis by (simp add: getChartVersionsFromClassicRepo_def Let_def)
next
  case (Inr req0)
  have same: "http_Do E (with_credentials creds1 req0) = http_Do E (with_credentials creds2 req0)"
    using assms by blast
  show ?thesis
  proof (cases "http_Do E (with_credentials creds2 req0)")
    case (Inl err)
    with Inr same show ?thesis by (simp add: getChartVersionsFromClassicRepo_def Let_def)
  next
    case res: (Inr res)
    with Inr same show ?thesis
      by (simp add: getChartVersionsFromClassicRepo_def Let_def split: sum.split option.split)
  qed
qed

lemma oci_fetch_credentials:
  assumes "\<forall>ref. remote_Tags E ref (oci_Credential creds1) = remote_Tags E ref (oci_Credential creds2)"
  shows "fst (getChartVersionsFromOCIRepo E repoURL creds1)
           = fst (getChartVersionsFromOCIRepo E repoURL creds2)"
proof (cases "registry_ParseReference E (TrimPrefix repoURL ''oci://'')")
  case (Inl err)
  then show ?thesis by (simp add: getChartVersionsFromOCIRepo_def)
next
  case (Inr ref)
  have "remote_Tags E ref (oci_Credential creds1) = remote_Tags E ref (oci_Credential creds2)"
    using assms by blast
  with Inr show ?thesis
    by (simp add: getChartVersionsFromOCIRepo_def split: prod.split)
qed

lemma select_fetched_error_text:
  assumes "fst (select_fetched E repoURL chart constraintStr fetched) = Returns (v, Some e)"
  shows "v = '''' \<and>
         ((\<exists>cause. \<forall>quote. Error quote e =
              ''error retrieving versions of chart '' @ quote chart
              @ '' from repository '' @ quote repoURL @ '': '' @ Error quote cause)
          \<or> (\<exists>cause. \<forall>quote. Error quote e =
              ''error determining latest version of chart '' @ quote chart
              @ '' from repository '' @ quote repoURL @ '': '' @ Error quote cause))"
proof -
  from select_fetched_error[OF assms]
  have v: "v = ''''"
    and d: "(\<exists>cause. e = Wrapped cause [Lit ''error retrieving versions of chart '', Q chart,
                                      Lit '' from repository '', Q repoURL])
          \<or> (\<exists>cause. e = Wrapped cause [Lit ''error determining latest version of chart '', Q chart,
                                         Lit '' from repository '', Q repoURL])"
    by blast+
  from d have "(\<exists>cause. \<forall>quote. Error quote e =
              ''error retrieving versions of chart '' @ quote chart
              @ '' from repository '' @ quote repoURL @ '': '' @ Error quote cause)
          \<or> (\<exists>cause. \<forall>quote. Error quote e =
              ''error determining latest version of chart '' @ quote chart
              @ '' from repository '' @ quote repoURL @ '': '' @ Error quote cause)"
  proof
    assume "\<exists>cause. e = Wrapped cause [Lit ''error retrieving versions of chart '', Q chart,
                                      Lit '' from repository '', Q repoURL]"
    then obtain cause where "e = Wrapped cause [Lit ''error retrieving versions of chart '', Q chart,
                                      Lit '' from repository '', Q repoURL]" ..
    then have "\<forall>quote. Error quote e =
              ''error retrieving versions of chart '' @ quote chart
              @ '' from repository '' @ quote repoURL @ '': '' @ Error quote cause"
      by (simp add: Sprintf_def)
    then show ?thesis by blast
  next
    assume "\<exists>cause. e = Wrapped cause [Lit ''error determining latest version of chart '', Q chart,
                                         Lit '' from repository '', Q repoURL]"
    then obtain cause where "e = Wrapped cause [Lit ''error determining latest version of chart '', Q chart,
                                         Lit '' from repository '', Q repoURL]" ..
    then have "\<forall>quote. Error quote e =
              ''error determining latest version of chart '' @ quote chart
              @ '' from repository '' @ quote repoURL @ '': '' @ Error quote cause"
      by (simp add: Sprintf_def)
    then show ?thesis by blast
  qed
  with v show ?thesis by blast
qed

text \<open>
  C9. An error that \<open>SelectChartVersion\<close> returns comes with the empty string, and its
  text is one of three: the repository URL is invalid, with the URL; the versions could
  not be retrieved, with the chart name, the URL and the cause; the latest version could
  not be determined, with the chart name, the URL and the cause. Name and URL stand in
  the text as the directive \<open>%q\<close> prints them. The credentials take no part: when the
  network answers two calls alike that differ in their credentials only, the two calls
  have the same outcome, and so the same error with the same text.
\<close>

theorem SelectChartVersion_error_text:
  assumes http: "\<forall>req. http_Do E (with_credentials creds1 req) = http_Do E (with_credentials creds2 req)"
      and tags: "\<forall>ref. remote_Tags E ref (oci_Credential creds1) = remote_Tags E ref (oci_Credential creds2)"
  shows "fst (SelectChartVersion E repoURL chart constraintStr creds1)
           = fst (SelectChartVersion E repoURL chart constraintStr creds2)
         \<and> (\<forall>v e. fst (SelectChartVersion E repoURL chart constraintStr creds1) = Returns (v, Some e) \<longrightarrow>
               v = '''' \<and>
               ((\<forall>quote. Error quote e = ''repository URL '' @ quote repoURL @ '' is invalid'')
                \<or> (\<exists>cause. \<forall>quote. Error quote e =
                       ''error retrieving versions of chart '' @ quote chart
                       @ '' from repository '' @ quote repoURL @ '': '' @ Error quote cause)
                \<or> (\<exists>cause. \<forall>quote. Error quote e =
                       ''error determining latest version of chart '' @ quote chart
                       @ '' from repository '' @ quote repoURL @ '': '' @ Error quote cause)))"
proof
  show "fst (SelectChartVersion E repoURL chart constraintStr creds1)
           = fst (SelectChartVersion E repoURL chart constraintStr creds2)"
  proof -
    have c: "fst (select_fetched E repoURL chart constraintStr
                    (getChartVersionsFromClassicRepo E repoURL chart creds1))
               = fst (select_fetched E repoURL chart constraintStr
                       (getChartVersionsFromClassicRepo E repoURL chart creds2))"
      by (rule select_fetched_congr[OF classic_fetch_credentials[OF http]])
    have o: "fst (select_fetched E repoURL chart constraintStr
                    (getChartVersionsFromOCIRepo E repoURL creds1))
               = fst (select_fetched E repoURL chart constraintStr
                       (getChartVersionsFromOCIRepo E repoURL creds2))"
      by (rule select_fetched_congr[OF oci_fetch_credentials[OF tags]])
    show ?thesis by (simp add: SelectChartVersion_def c o)
  qed
next
  show "\<forall>v e. fst (SelectChartVersion E repoURL chart constraintStr creds1) = Returns (v, Some e) \<longrightarrow>
               v = '''' \<and>
               ((\<forall>quote. Error quote e = ''repository URL '' @ quote repoURL @ '' is invalid'')
                \<or> (\<exists>cause. \<forall>quote. Error quote e =
                       ''error retrieving versions of chart '' @ quote chart
                       @ '' from repository '' @ quote repoURL @ '': '' @ Error quote cause)
                \<or> (\<exists>cause. \<forall>quote. Error quote e =
                       ''error determining latest version of chart '' @ quote chart
                       @ '' from repository '' @ quote repoURL @ '': '' @ Error quote cause))"
  proof (intro allI impI)
    fix v e
    assume res: "fst (SelectChartVersion E repoURL chart constraintStr creds1) = Returns (v, Some e)"
    consider (classic) "HasPrefix repoURL ''http://'' \<or> HasPrefix repoURL ''https://''"
      | (oci) "\<not> (HasPrefix repoURL ''http://'' \<or> HasPrefix repoURL ''https://'')"
              "HasPrefix repoURL ''oci://''"
      | (invalid) "\<not> (HasPrefix repoURL ''http://'' \<or> HasPrefix repoURL ''https://'')"
              "\<not> HasPrefix repoURL ''oci://''"
      by blast
    then show "v = '''' \<and>
               ((\<forall>quote. Error quote e = ''repository URL '' @ quote repoURL @ '' is invalid'')
                \<or> (\<exists>cause. \<forall>quote. Error quote e =
                       ''error retrieving versions of chart '' @ quote chart
                       @ '' from repository '' @ quote repoURL @ '': '' @ Error quote cause)
                \<or> (\<exists>cause. \<forall>quote. Error quote e =
                       ''error determining latest version of chart '' @ quote chart
                       @ '' from repository '' @ quote repoURL @ '': '' @ Error quote cause))"
    proof cases
      case classic
      with res have "fst (select_fetched E repoURL chart constraintStr
                            (getChartVersionsFromClassicRepo E repoURL chart creds1)) = Returns (v, Some e)"
        by (simp add: SelectChartVersion_def)
      from select_fetched_error_text[OF this] show ?thesis
        by blast
    next
      case oci
      with res have "fst (select_fetched E repoURL chart constraintStr
                            (getChartVersionsFromOCIRepo E repoURL creds1)) = Returns (v, Some e)"
        by (simp add: SelectChartVersion_def)
      from select_fetched_error_text[OF this] show ?thesis
        by blast
    next
      case invalid
      with res have "v = ''''" "e = Errorf [Lit ''repository URL '', Q repoURL, Lit '' is invalid'']"
        by (simp_all add: SelectChartVersion_def)
      then show ?thesis by (simp add: Sprintf_def)
    qed
  qed
qed

lemma with_credentials_URL: "URL (with_credentials creds req) = URL req"
  by (cases creds) (simp_all add: with_credentials_def SetBasicAuth_def)

theorem SelectChartVersion_error_text_witness:
  "fst (SelectChartVersion example_env ''https://charts.example.com/'' ''redis'' '''' None)
     = fst (SelectChartVersion example_env ''https://charts.example.com/'' ''redis'' ''''
              (Some \<lparr>Username = ''admin'', Password = ''hunter2''\<rparr>))
   \<and> fst (SelectChartVersion example_env ''https://charts.example.com/'' ''redis'' '''' None)
     = Returns ('''',
         Some (Wrapped (Errorf [Lit ''no versions of chart '', Q ''redis'',
                                Lit '' found in repository index from '',
                                Q ''https://charts.example.com/index.yaml''])
                 [Lit ''error retrieving versions of chart '', Q ''redis'',
                  Lit '' from repository '', Q ''https://charts.example.com/'']))
   \<and> snd (SelectChartVersion example_env ''https://charts.example.com/'' ''redis'' ''''
              (Some \<lparr>Username = ''admin'', Password = ''hunter2''\<rparr>))
     = [HTTPDo \<lparr>Method = ''GET'', URL = ''https://charts.example.com/index.yaml'',
                BasicAuth = Some (''admin'', ''hunter2'')\<rparr>]"
proof -
  let ?creds = "Some \<lparr>Username = ''admin'', Password = ''hunter2''\<rparr>"
  have http: "\<forall>req. http_Do example_env (with_credentials None req)
                    = http_Do example_env (with_credentials ?creds req)"
    by (simp add: example_env_def with_credentials_URL)
  have tags: "\<forall>ref. remote_Tags example_env ref (oci_Credential None)
                    = remote_Tags example_env ref (oci_Credential ?creds)"
    by (simp add: example_env_def)
  have run: "fst (SelectChartVersion example_env ''https://charts.example.com/'' ''redis'' '''' None)
     = Returns ('''',
         Some (Wrapped (Errorf [Lit ''no versions of chart '', Q ''redis'',
                                Lit '' found in repository index from '',
                                Q ''https://charts.example.com/index.yaml''])
                 [Lit ''error retrieving versions of chart '', Q ''redis'',
                  Lit '' from repository '', Q ''https://charts.example.com/'']))"
    by code_simp
  have sent: "snd (SelectChartVersion example_env ''https://charts.example.com/'' ''redis'' '''' ?creds)
     = [HTTPDo \<lparr>Method = ''GET'', URL = ''https://charts.example.com/index.yaml'',
                BasicAuth = Some (''admin'', ''hunter2'')\<rparr>]"
    by code_simp
  from SelectChartVersion_error_text[OF http tags, of "''https://charts.example.com/''" "''redis''" "''''"]
       run sent
  show ?thesis by simp
qed

text \<open>
  C3. The claim: for a classic repository and an empty chart name, \<open>SelectChartVersion\<close>
  fails with an invalid-input error before any fetch. The code has no check of the
  chart name: it calls the classic fetcher with the empty name. So the request for the
  index is sent, and the outcome is the one of looking the empty name up in the index:
  with no entry under the empty name, the error of the fetcher, wrapped.
\<close>

theorem SelectChartVersion_empty_chart_name:
  assumes classic: "HasPrefix repoURL ''http://'' \<or> HasPrefix repoURL ''https://''"
      and request: "http_NewRequest E ''GET'' (index_URL repoURL) = Inr req0"
  shows "snd (SelectChartVersion E repoURL '''' constraintStr creds) = [HTTPDo (with_credentials creds req0)]
         \<and> (\<forall>res body idx.
               http_Do E (with_credentials creds req0) = Inr res \<and> StatusCode res = 200
               \<and> Body res = Inr body \<and> yaml_Unmarshal E body = Inr idx \<and> Entries idx '''' = None \<longrightarrow>
               fst (SelectChartVersion E repoURL '''' constraintStr creds) =
                 Returns ('''',
                   Some (Wrapped (Errorf [Lit ''no versions of chart '', Q '''',
                                          Lit '' found in repository index from '',
                                          Q (index_URL repoURL)])
                           [Lit ''error retrieving versions of chart '', Q '''',
                            Lit '' from repository '', Q repoURL])))"
proof
  have "snd (getChartVersionsFromClassicRepo E repoURL '''' creds) = [HTTPDo (with_credentials creds req0)]"
    using request
    by (simp add: getChartVersionsFromClassicRepo_def Let_def split: sum.split option.split)
  moreover have "snd (select_fetched E repoURL '''' constraintStr fetched) = snd fetched" for fetched
    by (simp add: select_fetched_def split: prod.split option.split outcome.split)
  ultimately show "snd (SelectChartVersion E repoURL '''' constraintStr creds)
                     = [HTTPDo (with_credentials creds req0)]"
    using classic by (simp add: SelectChartVersion_def)
next
  show "\<forall>res body idx.
               http_Do E (with_credentials creds req0) = Inr res \<and> StatusCode res = 200
               \<and> Body res = Inr body \<and> yaml_Unmarshal E body = Inr idx \<and> Entries idx '''' = None \<longrightarrow>
               fst (SelectChartVersion E repoURL '''' constraintStr creds) =
                 Returns ('''',
                   Some (Wrapped (Errorf [Lit ''no versions of chart '', Q '''',
                                          Lit '' found in repository index from '',
                                          Q (index_URL repoURL)])
                           [Lit ''error retrieving versions of chart '', Q '''',
                            Lit '' from repository '', Q repoURL]))"
  proof (intro allI impI, elim conjE)
    fix res body idx
    assume a: "http_Do E (with_credentials creds req0) = Inr res" "StatusCode res = 200"
      "Body res = Inr body" "yaml_Unmarshal E body = Inr idx" "Entries idx '''' = None"
    from classic_fetch_200[OF request a(1-4), of "''''"] a(5) classic
    show "fst (SelectChartVersion E repoURL '''' constraintStr creds) =
                 Returns ('''',
                   Some (Wrapped (Errorf [Lit ''no versions of chart '', Q '''',
                                          Lit '' found in repository index from '',
                                          Q (index_URL repoURL)])
                           [Lit ''error retrieving versions of chart '', Q '''',
                            Lit '' from repository '', Q repoURL]))"
      by (simp add: SelectChartVersion_def fst_select_fetched)
  qed
qed

lemma example_request1:
  "http_NewRequest example_env ''GET'' (index_URL ''https://charts.example.com/'') =
     Inr \<lparr>Method = ''GET'', URL = ''https://charts.example.com/index.yaml'', BasicAuth = None\<rparr>"
  by (simp add: example_env_def index_URL_def TrimSuffix_def HasSuffix_def)

theorem SelectChartVersion_empty_chart_name_witness:
  "snd (SelectChartVersion example_env ''https://charts.example.com/'' '''' ''^1.0.0'' None)
     = [HTTPDo \<lparr>Method = ''GET'', URL = ''https://charts.example.com/index.yaml'', BasicAuth = None\<rparr>]
   \<and> fst (SelectChartVersion example_env ''https://charts.example.com/'' '''' ''^1.0.0'' None)
     = Returns ('''',
         Some (Wrapped (Errorf [Lit ''no versions of chart '', Q '''',
                                Lit '' found in repository index from '',
                                Q ''https://charts.example.com/index.yaml''])
                 [Lit ''error retrieving versions of chart '', Q '''',
                  Lit '' from repository '', Q ''https://charts.example.com/'']))"
proof -
  let ?req0 = "\<lparr>Method = ''GET'', URL = ''https://charts.example.com/index.yaml'', BasicAuth = None\<rparr>"
  let ?res = "\<lparr>StatusCode = 200, Body = Inr ''entries: ...''\<rparr>"
  have classic: "HasPrefix ''https://charts.example.com/'' ''http://''
                 \<or> HasPrefix ''https://charts.example.com/'' ''https://''"
    by (simp add: HasPrefix_def)
  have do: "http_Do example_env (with_credentials None ?req0) = Inr ?res"
    by (simp add: example_env_def with_credentials_def)
  have yaml: "yaml_Unmarshal example_env ''entries: ...'' = Inr example_index"
    by (simp add: example_env_def)
  have absent: "Entries example_index '''' = None"
    by (simp add: example_index_def)
  have url: "index_URL ''https://charts.example.com/'' = ''https://charts.example.com/index.yaml''"
    by (simp add: index_URL_def TrimSuffix_def HasSuffix_def)
  from SelectChartVersion_empty_chart_name[OF classic example_request1, of "''^1.0.0''" None]
       do yaml absent url
  show ?thesis by (simp add: with_credentials_def)
qed

theorem SelectChartVersion_empty_chart_name_counterexample:
  "HasPrefix ''https://charts.example.com/'' ''https://''
   \<and> SelectChartVersion example_env ''https://charts.example.com/'' '''' '''' None
     = (Returns ('''',
          Some (Wrapped (Errorf [Lit ''no versions of chart '', Q '''',
                                 Lit '' found in repository index from '',
                                 Q ''https://charts.example.com/index.yaml''])
                  [Lit ''error retrieving versions of chart '', Q '''',
                   Lit '' from repository '', Q ''https://charts.example.com/''])),
        [HTTPDo \<lparr>Method = ''GET'', URL = ''https://charts.example.com/index.yaml'', BasicAuth = None\<rparr>])
   \<and> SelectChartVersion example_env2 ''https://charts.example.com/'' '''' '''' None
     = (Returns (''1.0.0'', None),
        [HTTPDo \<lparr>Method = ''GET'', URL = ''https://charts.example.com/index.yaml'', BasicAuth = None\<rparr>])"
  by code_simp



section \<open>The order of versions that compare equal\<close>

lemma example_sort: "sort_Sort example_env = go_Sort xorshift_Next"
  by (simp add: example_env_def)

lemma go_Sort_short: "length xs \<le> 12 \<Longrightarrow> go_Sort rnd lt xs = inserted lt xs"
  by (simp add: go_Sort_def Sort_short)

text \<open>
  C7. The claim: the resolver's sort is stable, that is, entries of the raw list that
  compare equal keep their relative order. The resolver sorts with \<open>sort.Sort\<close>, which
  is not a stable sort. It sorts a slice of at most twelve elements by insertion, and
  then the claim holds: for every version \<open>w\<close> of the list, the versions that tie with
  \<open>w\<close> stand in the sorted list in the order they had before (provided that tying is
  transitive among the versions of the list, as it is for an order). A longer slice is
  partitioned around a pivot, and the swaps of the partition carry elements across
  their equals.
\<close>

theorem sort_keeps_ties_short:
  assumes short: "length parsed \<le> 12"
      and transitive: "\<forall>w\<in>set parsed. \<forall>x\<in>set parsed. \<forall>y\<in>set parsed.
                         ties lt w x \<and> ties lt w y \<longrightarrow> ties lt x y"
  shows "\<forall>w\<in>set parsed. filter (ties lt w) (go_Sort rnd lt parsed) = filter (ties lt w) parsed"
proof
  fix w
  assume w: "w \<in> set parsed"
  have "\<forall>x\<in>set parsed. \<forall>y\<in>set parsed. ties lt w x \<and> ties lt w y \<longrightarrow> \<not> lt x y"
  proof (intro ballI impI)
    fix x y
    assume x: "x \<in> set parsed" and y: "y \<in> set parsed"
       and both: "ties lt w x \<and> ties lt w y"
    from transitive w x y both have "ties lt x y"
      by blast
    then show "\<not> lt x y"
      by (simp add: ties_def)
  qed
  then have "filter (ties lt w) (inserted lt parsed) = filter (ties lt w) parsed"
    by (rule inserted_stable)
  then show "filter (ties lt w) (go_Sort rnd lt parsed) = filter (ties lt w) parsed"
    by (simp add: go_Sort_short[OF short])
qed

theorem sort_keeps_ties_short_witness:
  "map (semver_String example_env)
     (filter (ties (semver_LessThan example_env) (short_parsed ! 0))
        (sort_Sort example_env (semver_LessThan example_env) short_parsed))
     = [''12.0.0+a'', ''12.0.0+b'']"
proof -
  have short: "length short_parsed \<le> 12"
    by (simp add: short_parsed_def)
  have transitive: "\<forall>w\<in>set short_parsed. \<forall>x\<in>set short_parsed. \<forall>y\<in>set short_parsed.
      ties (semver_LessThan example_env) w x \<and> ties (semver_LessThan example_env) w y
        \<longrightarrow> ties (semver_LessThan example_env) x y"
    by code_simp
  have "0 < length short_parsed"
    by (simp add: short_parsed_def)
  then have first: "short_parsed ! 0 \<in> set short_parsed"
    by (rule nth_mem)
  have before: "map (semver_String example_env)
     (filter (ties (semver_LessThan example_env) (short_parsed ! 0)) short_parsed)
     = [''12.0.0+a'', ''12.0.0+b'']"
    by code_simp
  have "filter (ties (semver_LessThan example_env) (short_parsed ! 0))
          (go_Sort xorshift_Next (semver_LessThan example_env) short_parsed)
        = filter (ties (semver_LessThan example_env) (short_parsed ! 0)) short_parsed"
    using sort_keeps_ties_short[OF short transitive, of xorshift_Next] first by (rule bspec)
  with before show ?thesis
    by (simp only: example_sort)
qed

theorem sort_keeps_ties_counterexample:
  "map (semver_NewVersion example_env) tie_versions = map Inr tie_parsed
   \<and> ties (semver_LessThan example_env) (tie_parsed ! 0) (tie_parsed ! 1)
   \<and> map (semver_String example_env) tie_parsed =
       [''12.0.0+a'', ''12.0.0+b'', ''1.0.0'', ''2.0.0'', ''3.0.0'', ''4.0.0'', ''5.0.0'',
        ''6.0.0'', ''7.0.0'', ''8.0.0'', ''9.0.0'', ''10.0.0'', ''11.0.0'']
   \<and> map (semver_String example_env)
         (sort_Sort example_env (semver_LessThan example_env) tie_parsed) =
       [''1.0.0'', ''2.0.0'', ''3.0.0'', ''4.0.0'', ''5.0.0'', ''6.0.0'', ''7.0.0'', ''8.0.0'',
        ''9.0.0'', ''10.0.0'', ''11.0.0'', ''12.0.0+b'', ''12.0.0+a'']
   \<and> getLatestVersion example_env tie_versions '''' = Returns (''12.0.0+a'', None)"
proof (intro conjI)
  show "map (semver_NewVersion example_env) tie_versions = map Inr tie_parsed"
    by code_simp
  show "ties (semver_LessThan example_env) (tie_parsed ! 0) (tie_parsed ! 1)"
    by code_simp
  show "map (semver_String example_env) tie_parsed =
       [''12.0.0+a'', ''12.0.0+b'', ''1.0.0'', ''2.0.0'', ''3.0.0'', ''4.0.0'', ''5.0.0'',
        ''6.0.0'', ''7.0.0'', ''8.0.0'', ''9.0.0'', ''10.0.0'', ''11.0.0'']"
    by code_simp
  show "map (semver_String example_env)
         (sort_Sort example_env (semver_LessThan example_env) tie_parsed) =
       [''1.0.0'', ''2.0.0'', ''3.0.0'', ''4.0.0'', ''5.0.0'', ''6.0.0'', ''7.0.0'', ''8.0.0'',
        ''9.0.0'', ''10.0.0'', ''11.0.0'', ''12.0.0+b'', ''12.0.0+a'']"
    by code_simp
  show "getLatestVersion example_env tie_versions '''' = Returns (''12.0.0+a'', None)"
    by code_simp
qed

end
